theory Spec2Isabelle
  imports Complex_Main "HOL-Library.AList"
begin

section \<open>JavaScript numbers and values\<close>

text \<open>
  The simulator of \<^verbatim>\<open>src/pages/index.tsx\<close> computes on JavaScript numbers, which are
  IEEE 754 doubles. A number is modelled as a finite value or one of the three special
  values; a finite double is modelled by the real number it denotes. An arithmetic
  operation on finite operands yields the exact real result rounded to the double format.
  That rounding, \<open>rnd\<close>, is a parameter of the model: it maps a real to a finite double or,
  on overflow, to an infinity. The exact result \<open>0\<close> is a double and is not rounded, and
  adding \<open>0\<close> to a double yields that double. The
  special values follow IEEE 754 as JavaScript has it: \<open>0/0\<close> is \<open>NaN\<close>, \<open>x/0\<close> is an
  infinity for \<open>x \<noteq> 0\<close>, \<open>\<infinity> - \<infinity>\<close> and \<open>0 * \<infinity>\<close> are \<open>NaN\<close>, and \<open>NaN\<close> absorbs. No
  operation throws. The sign of zero is left out: every divisor of the program is a sum
  started at \<open>0\<close> or the literal \<open>100\<close>, so a zero divisor is \<open>+0\<close>.
\<close>

datatype jsnum = Fin real | PInf | NInf | NaN

datatype error = TypeError

definition signed_inf :: "real \<Rightarrow> jsnum" where
  "signed_inf r = (if r = 0 then NaN else if 0 < r then PInf else NInf)"

definition rd :: "(real \<Rightarrow> jsnum) \<Rightarrow> real \<Rightarrow> jsnum" where
  "rd rnd x = (if x = 0 then Fin 0 else rnd x)"

fun js_add :: "(real \<Rightarrow> jsnum) \<Rightarrow> jsnum \<Rightarrow> jsnum \<Rightarrow> jsnum" where
  "js_add rnd NaN y = NaN"
| "js_add rnd x NaN = NaN"
| "js_add rnd PInf NInf = NaN"
| "js_add rnd NInf PInf = NaN"
| "js_add rnd PInf y = PInf"
| "js_add rnd x PInf = PInf"
| "js_add rnd NInf y = NInf"
| "js_add rnd x NInf = NInf"
| "js_add rnd (Fin a) (Fin b) =
     (if b = 0 then Fin a else if a = 0 then Fin b else rd rnd (a + b))"

fun js_mul :: "(real \<Rightarrow> jsnum) \<Rightarrow> jsnum \<Rightarrow> jsnum \<Rightarrow> jsnum" where
  "js_mul rnd NaN y = NaN"
| "js_mul rnd x NaN = NaN"
| "js_mul rnd PInf PInf = PInf"
| "js_mul rnd PInf NInf = NInf"
| "js_mul rnd NInf PInf = NInf"
| "js_mul rnd NInf NInf = PInf"
| "js_mul rnd PInf (Fin b) = signed_inf b"
| "js_mul rnd NInf (Fin b) = signed_inf (- b)"
| "js_mul rnd (Fin a) PInf = signed_inf a"
| "js_mul rnd (Fin a) NInf = signed_inf (- a)"
| "js_mul rnd (Fin a) (Fin b) = rd rnd (a * b)"

fun js_div :: "(real \<Rightarrow> jsnum) \<Rightarrow> jsnum \<Rightarrow> jsnum \<Rightarrow> jsnum" where
  "js_div rnd NaN y = NaN"
| "js_div rnd x NaN = NaN"
| "js_div rnd PInf PInf = NaN"
| "js_div rnd PInf NInf = NaN"
| "js_div rnd NInf PInf = NaN"
| "js_div rnd NInf NInf = NaN"
| "js_div rnd PInf (Fin b) = (if 0 \<le> b then PInf else NInf)"
| "js_div rnd NInf (Fin b) = (if 0 \<le> b then NInf else PInf)"
| "js_div rnd (Fin a) PInf = Fin 0"
| "js_div rnd (Fin a) NInf = Fin 0"
| "js_div rnd (Fin a) (Fin b) = (if b = 0 then signed_inf a else rd rnd (a / b))"

text \<open>
  What the theorems below assume of the rounding, where they assume anything: a value it
  yields is a double, which it leaves as it is, and it is monotone in the order
  \<open>-\<infinity> < finite < \<infinity>\<close> (so it never yields \<open>NaN\<close>). Rounding to nearest, as the double
  format has it, is such a function, and so is the rounding that changes nothing (\<open>Fin\<close>,
  exact arithmetic). A real \<open>r\<close> is a double when the rounding leaves it as it is.
\<close>

fun js_le :: "jsnum \<Rightarrow> jsnum \<Rightarrow> bool" where
  "js_le NaN y = False"
| "js_le x NaN = False"
| "js_le NInf y = True"
| "js_le x PInf = True"
| "js_le PInf y = False"
| "js_le x NInf = False"
| "js_le (Fin a) (Fin b) = (a \<le> b)"

definition rounding :: "(real \<Rightarrow> jsnum) \<Rightarrow> bool" where
  "rounding rnd =
     ((\<forall>x z. rd rnd x = Fin z \<longrightarrow> rd rnd z = Fin z)
      \<and> (\<forall>x y. x \<le> y \<longrightarrow> js_le (rd rnd x) (rd rnd y)))"

definition is_double :: "(real \<Rightarrow> jsnum) \<Rightarrow> real \<Rightarrow> bool" where
  "is_double rnd r = (rd rnd r = Fin r)"

text \<open>ToBoolean on a number: \<open>0\<close> and \<open>NaN\<close> are falsy.\<close>

definition js_truthy :: "jsnum \<Rightarrow> bool" where
  "js_truthy n = (n \<noteq> NaN \<and> n \<noteq> Fin 0)"

text \<open>
  A property read that may find nothing yields \<open>undefined\<close>, here \<open>None\<close>.
  \<open>to_num\<close> is ToNumber (\<open>undefined\<close> becomes \<open>NaN\<close>), \<open>or_zero\<close> is the idiom
  \<^verbatim>\<open>x || 0\<close> on such a read.
\<close>

definition to_num :: "jsnum option \<Rightarrow> jsnum" where
  "to_num v = (case v of None \<Rightarrow> NaN | Some n \<Rightarrow> n)"

definition or_zero :: "jsnum option \<Rightarrow> jsnum" where
  "or_zero v = (case v of None \<Rightarrow> Fin 0 | Some n \<Rightarrow> if js_truthy n then n else Fin 0)"

text \<open>
  The fields of a raw venue response are JSON values. \<open>parse\<close> stands for the language's
  conversion of a string to a number, which the normalizers call through \<^verbatim>\<open>Number\<close>
  and \<^verbatim>\<open>/\<close>; it is a parameter of the model.
\<close>

datatype jsval = Undefined | Null | Num jsnum | Str string

fun val_truthy :: "jsval \<Rightarrow> bool" where
  "val_truthy Undefined = False"
| "val_truthy Null = False"
| "val_truthy (Num n) = js_truthy n"
| "val_truthy (Str s) = (s \<noteq> [])"

fun val_to_num :: "(string \<Rightarrow> jsnum) \<Rightarrow> jsval \<Rightarrow> jsnum" where
  "val_to_num parse Undefined = NaN"
| "val_to_num parse Null = Fin 0"
| "val_to_num parse (Num n) = n"
| "val_to_num parse (Str s) = parse s"

section \<open>Quote normalizers\<close>

record quote =
  base :: jsnum
  reward :: jsnum

type_synonym apys = "(string \<times> quote) list"

definition aaveTokens :: "string list" where
  "aaveTokens = [''ADAI'', ''AUSDC'', ''AUSDT'']"

definition compoundTokens :: "string list" where
  "compoundTokens = [''cDAI'', ''cUSDC'', ''cUSDT'']"

text \<open>\<^verbatim>\<open>keys.includes(symbol)\<close>: only a string can be a member of a list of strings.\<close>

fun js_includes :: "string list \<Rightarrow> jsval \<Rightarrow> string option" where
  "js_includes keys (Str s) = (if s \<in> set keys then Some s else None)"
| "js_includes keys v = None"

record aave_reserve =
  symbol :: jsval
  liquidityRate :: jsval
  aIncentivesAPY :: jsval

record aave_response =
  reserves :: "aave_reserve list option"

text \<open>
  \<^verbatim>\<open>processAAVE\<close>: a fold over \<^verbatim>\<open>reserves\<close>; reading \<^verbatim>\<open>.reduce\<close> of an absent
  \<^verbatim>\<open>reserves\<close> throws.
\<close>

definition aave_step :: "(string \<Rightarrow> jsnum) \<Rightarrow> apys \<Rightarrow> aave_reserve \<Rightarrow> apys" where
  "aave_step parse acc r =
     (case js_includes aaveTokens (symbol r) of
        Some s \<Rightarrow>
          AList.update s
            \<lparr>base = val_to_num parse (liquidityRate r),
             reward = val_to_num parse
               (if val_truthy (aIncentivesAPY r) then aIncentivesAPY r else Num (Fin 0))\<rparr> acc
      | None \<Rightarrow> acc)"

definition processAAVE :: "(string \<Rightarrow> jsnum) \<Rightarrow> aave_response \<Rightarrow> error + apys" where
  "processAAVE parse resp =
     (case reserves resp of
        None \<Rightarrow> Inl TypeError
      | Some rs \<Rightarrow> Inr (foldl (aave_step parse) [] rs))"

record rate_obj =
  rate_value :: jsval

record ctoken =
  c_symbol :: jsval
  supply_rate :: "rate_obj option"
  comp_supply_apy :: "rate_obj option"

record compound_response =
  cToken :: "ctoken list option"

text \<open>
  \<^verbatim>\<open>processCompound\<close>: for a recognised symbol the callback reads
  \<^verbatim>\<open>supply_rate.value\<close> and then \<^verbatim>\<open>comp_supply_apy.value\<close>; either read throws when
  the object is absent, and the throw leaves the whole \<^verbatim>\<open>reduce\<close>.
\<close>

definition compound_step :: "(real \<Rightarrow> jsnum) \<Rightarrow> (string \<Rightarrow> jsnum) \<Rightarrow> apys \<Rightarrow> ctoken \<Rightarrow> error + apys" where
  "compound_step rnd parse acc c =
     (case js_includes compoundTokens (c_symbol c) of
        Some s \<Rightarrow>
          (case supply_rate c of
             None \<Rightarrow> Inl TypeError
           | Some sr \<Rightarrow>
               (case comp_supply_apy c of
                  None \<Rightarrow> Inl TypeError
                | Some ca \<Rightarrow>
                    Inr (AList.update s
                      \<lparr>base = val_to_num parse (rate_value sr),
                       reward = js_div rnd (val_to_num parse (rate_value ca)) (Fin 100)\<rparr> acc)))
      | None \<Rightarrow> Inr acc)"

fun compound_reduce :: "(real \<Rightarrow> jsnum) \<Rightarrow> (string \<Rightarrow> jsnum) \<Rightarrow> apys \<Rightarrow> ctoken list \<Rightarrow> error + apys" where
  "compound_reduce rnd parse acc [] = Inr acc"
| "compound_reduce rnd parse acc (c # cs) =
     (case compound_step rnd parse acc c of
        Inl e \<Rightarrow> Inl e
      | Inr acc' \<Rightarrow> compound_reduce rnd parse acc' cs)"

definition processCompound :: "(real \<Rightarrow> jsnum) \<Rightarrow> (string \<Rightarrow> jsnum) \<Rightarrow> compound_response \<Rightarrow> error + apys" where
  "processCompound rnd parse resp =
     (case cToken resp of
        None \<Rightarrow> Inl TypeError
      | Some cs \<Rightarrow> compound_reduce rnd parse [] cs)"

record llama_point =
  apyBase :: jsval
  apyReward :: jsval

record llama_response =
  chart_data :: "llama_point list option"

text \<open>
  \<^verbatim>\<open>processDefiLlama(pool)\<close>: \<^verbatim>\<open>data.pop()\<close> is the last point; on an empty array it
  is \<open>undefined\<close> and the destructuring throws. The defaults \<^verbatim>\<open>= 0\<close> replace only
  \<open>undefined\<close>.
\<close>

definition dflt0 :: "jsval \<Rightarrow> jsval" where
  "dflt0 v = (if v = Undefined then Num (Fin 0) else v)"

definition processDefiLlama ::
  "(real \<Rightarrow> jsnum) \<Rightarrow> (string \<Rightarrow> jsnum) \<Rightarrow> string \<Rightarrow> llama_response \<Rightarrow> error + apys" where
  "processDefiLlama rnd parse pool resp =
     (case chart_data resp of
        None \<Rightarrow> Inl TypeError
      | Some ds \<Rightarrow>
          (if ds = [] then Inl TypeError
           else
             (let p = last ds; b = dflt0 (apyBase p); r = dflt0 (apyReward p)
              in Inr [(pool,
                   \<lparr>base = js_div rnd (val_to_num parse b) (Fin 100),
                    reward = js_div rnd (val_to_num parse (if val_truthy r then r else Num (Fin 0)))
                               (Fin 100)\<rparr>)])))"

text \<open>\<^verbatim>\<open>merge\<close>: later objects overwrite earlier keys.\<close>

definition merge :: "('k \<times> 'v) list list \<Rightarrow> ('k \<times> 'v) list" where
  "merge objs = foldl (\<lambda>acc item. foldl (\<lambda>a kv. AList.update (fst kv) (snd kv) a) acc item) [] objs"

section \<open>Holdings aggregation\<close>

text \<open>
  A JavaScript object is an association list of its own properties in insertion order
  (keys distinct); \<open>map_of\<close> reads a property and \<open>AList.update\<close> assigns one, keeping
  the place of an existing key and appending a new one. Holdings are JSON numbers.
\<close>

type_synonym amounts = "(string \<times> jsnum) list"

record strategy_data =
  name :: "string option"
  holdings :: "amounts option"

type_synonym snapshot = "(string \<times> strategy_data) list"

text \<open>
  The body of the \<^verbatim>\<open>forEach\<close> of \<^verbatim>\<open>processStrategies\<close>: a falsy running total (absent,
  \<open>0\<close> or \<open>NaN\<close>) is reset to \<open>0\<close> before the amount is added.
\<close>

definition add_token :: "(real \<Rightarrow> jsnum) \<Rightarrow> amounts \<Rightarrow> string \<times> jsnum \<Rightarrow> amounts" where
  "add_token rnd acc tv = AList.update (fst tv) (js_add rnd (or_zero (map_of acc (fst tv))) (snd tv)) acc"

text \<open>\<^verbatim>\<open>Object.keys(undefined)\<close> throws: a strategy without \<^verbatim>\<open>holdings\<close> ends the fold.\<close>

fun processStrategies_from :: "(real \<Rightarrow> jsnum) \<Rightarrow> amounts \<Rightarrow> snapshot \<Rightarrow> error + amounts" where
  "processStrategies_from rnd acc [] = Inr acc"
| "processStrategies_from rnd acc (kd # rest) =
     (case holdings (snd kd) of
        None \<Rightarrow> Inl TypeError
      | Some h \<Rightarrow> processStrategies_from rnd (foldl (add_token rnd) acc h) rest)"

definition processStrategies :: "(real \<Rightarrow> jsnum) \<Rightarrow> snapshot \<Rightarrow> error + amounts" where
  "processStrategies rnd data = processStrategies_from rnd [] data"

definition stables :: "string list" where
  "stables = [''DAI'', ''USDT'', ''USDC'']"

record details =
  totalHoldings :: amounts
  ousdStrategies :: snapshot
  totalStables :: jsnum
  holdingsSummary :: "(string \<times> jsnum option) list"

text \<open>
  \<^verbatim>\<open>fetchOUSDDetails\<close> after the two fetches: the vault entry is deleted, the holdings
  are totalled per token, and the grand total and the summary range over \<open>stables\<close> only.
\<close>

definition fetchOUSDDetails :: "(real \<Rightarrow> jsnum) \<Rightarrow> snapshot \<Rightarrow> error + details" where
  "fetchOUSDDetails rnd fetched =
     (let ousd = AList.delete ''vault_holding'' fetched in
      case processStrategies rnd ousd of
        Inl e \<Rightarrow> Inl e
      | Inr th \<Rightarrow>
          Inr \<lparr>totalHoldings = th,
               ousdStrategies = ousd,
               totalStables = foldl (\<lambda>acc key. js_add rnd acc (or_zero (map_of th key))) (Fin 0) stables,
               holdingsSummary = foldl (\<lambda>acc t. AList.update t (map_of th t) acc) [] stables\<rparr>)"

text \<open>\<^verbatim>\<open>holdingsSummary[token]\<close>: absent and stored-\<open>undefined\<close> read the same.\<close>

definition summary_get :: "(string \<times> jsnum option) list \<Rightarrow> string \<Rightarrow> jsnum option" where
  "summary_get hs t = (case map_of hs t of None \<Rightarrow> None | Some v \<Rightarrow> v)"

section \<open>Allocation model\<close>

type_synonym allocations = "(string \<times> amounts) list"

definition strategy_ids :: "string list" where
  "strategy_ids =
     [''aavestrat_holding'', ''compstrat_holding'', ''threepoolstrat_holding'',
      ''lusd_metastrat'', ''ousd_metastrat'', ''morpho_aave_strat'', ''morpho_strat'']"

definition seed_tokens :: "string list" where
  "seed_tokens = [''DAI'', ''USDC'', ''USDT'']"

text \<open>The initial state of \<^verbatim>\<open>useState\<close>: every cell \<open>0\<close>.\<close>

definition initial_allocations :: allocations where
  "initial_allocations = map (\<lambda>t. (t, map (\<lambda>s. (s, Fin 0)) strategy_ids)) seed_tokens"

text \<open>
  \<^verbatim>\<open>onChangeAllocation\<close>: the updater spreads \<^verbatim>\<open>prev\<close> and \<^verbatim>\<open>prev[token]\<close> (the
  spread of \<open>undefined\<close> is empty) and sets the one cell. Nothing is checked, nothing throws.
\<close>

definition onChangeAllocation :: "string \<Rightarrow> string \<Rightarrow> jsnum \<Rightarrow> allocations \<Rightarrow> allocations" where
  "onChangeAllocation tok strat percent prev =
     AList.update tok
       (AList.update strat percent (case map_of prev tok of None \<Rightarrow> [] | Some cells \<Rightarrow> cells))
       prev"

text \<open>\<^verbatim>\<open>allocations[token][strategy]\<close> as a read that may find nothing.\<close>

definition cell :: "allocations \<Rightarrow> string \<Rightarrow> string \<Rightarrow> jsnum option" where
  "cell a tok strat = (case map_of a tok of None \<Rightarrow> None | Some cells \<Rightarrow> map_of cells strat)"

text \<open>
  The seven destructurings \<^verbatim>\<open>const { DAI, USDC, USDT } = s?.holdings\<close>: a strategy
  that is absent, or has no \<^verbatim>\<open>holdings\<close>, throws.
\<close>

definition holdings_of :: "snapshot \<Rightarrow> string \<Rightarrow> error + amounts" where
  "holdings_of ousd sid =
     (case map_of ousd sid of
        None \<Rightarrow> Inl TypeError
      | Some d \<Rightarrow> (case holdings d of None \<Rightarrow> Inl TypeError | Some h \<Rightarrow> Inr h))"

fun all_holdings :: "snapshot \<Rightarrow> string list \<Rightarrow> error + (string \<times> amounts) list" where
  "all_holdings ousd [] = Inr []"
| "all_holdings ousd (s # ss) =
     (case holdings_of ousd s of
        Inl e \<Rightarrow> Inl e
      | Inr h \<Rightarrow>
          (case all_holdings ousd ss of
             Inl e \<Rightarrow> Inl e
           | Inr hs \<Rightarrow> Inr ((s, h) # hs)))"

text \<open>
  The baseline passed to \<^verbatim>\<open>setAllocations\<close>: each cell is the strategy's amount of the
  token divided by \<^verbatim>\<open>totalHoldings[token]\<close>, with no test of the divisor.
\<close>

definition baseline :: "(real \<Rightarrow> jsnum) \<Rightarrow> (string \<times> amounts) list \<Rightarrow> amounts \<Rightarrow> allocations" where
  "baseline rnd hs th =
     map (\<lambda>t. (t, map (\<lambda>sh. (fst sh, js_div rnd (to_num (map_of (snd sh) t)) (to_num (map_of th t)))) hs))
       seed_tokens"

section \<open>Yield projection\<close>

datatype scope = Single string | Basket "string list"

record strategy =
  strategyId :: string
  token :: scope
  apy :: string

definition three_pool :: scope where
  "three_pool = Basket [''DAI'', ''USDC'', ''USDT'']"

definition strategies :: "strategy list" where
  "strategies =
     [\<lparr>strategyId = ''aavestrat_holding'', token = Single ''DAI'', apy = ''ADAI''\<rparr>,
      \<lparr>strategyId = ''aavestrat_holding'', token = Single ''USDC'', apy = ''AUSDC''\<rparr>,
      \<lparr>strategyId = ''aavestrat_holding'', token = Single ''USDT'', apy = ''AUSDT''\<rparr>,
      \<lparr>strategyId = ''compstrat_holding'', token = Single ''DAI'', apy = ''cUSDT''\<rparr>,
      \<lparr>strategyId = ''compstrat_holding'', token = Single ''USDC'', apy = ''cUSDT''\<rparr>,
      \<lparr>strategyId = ''compstrat_holding'', token = Single ''USDT'', apy = ''cUSDT''\<rparr>,
      \<lparr>strategyId = ''threepoolstrat_holding'', token = three_pool, apy = ''convex3pool''\<rparr>,
      \<lparr>strategyId = ''lusd_metastrat'', token = three_pool, apy = ''convexLusd3Crv''\<rparr>,
      \<lparr>strategyId = ''ousd_metastrat'', token = three_pool, apy = ''convexOusd3Crv''\<rparr>,
      \<lparr>strategyId = ''morpho_aave_strat'', token = Single ''DAI'', apy = ''morphoAaveDAI''\<rparr>,
      \<lparr>strategyId = ''morpho_aave_strat'', token = Single ''USDC'', apy = ''morphoAaveUSDC''\<rparr>,
      \<lparr>strategyId = ''morpho_aave_strat'', token = Single ''USDT'', apy = ''morphoAaveUSDT''\<rparr>,
      \<lparr>strategyId = ''morpho_strat'', token = Single ''DAI'', apy = ''morphoCompoundDAI''\<rparr>,
      \<lparr>strategyId = ''morpho_strat'', token = Single ''USDC'', apy = ''morphoCompoundUSDC''\<rparr>,
      \<lparr>strategyId = ''morpho_strat'', token = Single ''USDT'', apy = ''morphoCompoundUSDT''\<rparr>]"

text \<open>
  A row of \<^verbatim>\<open>outcome\<close>. \<open>row_total\<close> is \<open>None\<close> when the field holds \<open>undefined\<close>.
\<close>

record row =
  row_name :: "string option"
  row_total :: "jsnum option"
  row_allocation :: jsnum
  row_allocationAmount :: jsnum
  row_base :: jsnum
  row_reward :: jsnum
  row_strategy :: jsnum
  row_boosted :: jsnum
  row_weighted :: jsnum
  row_token :: scope

text \<open>
  \<^verbatim>\<open>(allocations[t][strategyId] * totalHoldings[t]) / totalStables\<close>: reading a cell of
  an absent \<^verbatim>\<open>allocations[t]\<close> throws; an absent cell or total is \<open>undefined\<close> and turns
  the product into \<open>NaN\<close>.
\<close>

definition alloc_term ::
  "(real \<Rightarrow> jsnum) \<Rightarrow> allocations \<Rightarrow> amounts \<Rightarrow> jsnum \<Rightarrow> string \<Rightarrow> string \<Rightarrow> error + jsnum" where
  "alloc_term rnd allocs th ts sid t =
     (case map_of allocs t of
        None \<Rightarrow> Inl TypeError
      | Some cells \<Rightarrow> Inr (js_div rnd (js_mul rnd (to_num (map_of cells sid)) (to_num (map_of th t))) ts))"

text \<open>The \<^verbatim>\<open>for\<close> loop of a basket, on the pair \<open>(allocation, total)\<close>.\<close>

fun basket_loop ::
  "(real \<Rightarrow> jsnum) \<Rightarrow> allocations \<Rightarrow> amounts \<Rightarrow> jsnum \<Rightarrow> (string \<times> jsnum option) list \<Rightarrow> string \<Rightarrow>
   string list \<Rightarrow> jsnum \<times> jsnum \<Rightarrow> error + jsnum \<times> jsnum" where
  "basket_loop rnd allocs th ts hs sid [] pr = Inr pr"
| "basket_loop rnd allocs th ts hs sid (t # toks) pr =
     (case alloc_term rnd allocs th ts sid t of
        Inl e \<Rightarrow> Inl e
      | Inr x \<Rightarrow>
          basket_loop rnd allocs th ts hs sid toks
            (js_add rnd (fst pr) x, js_add rnd (snd pr) (to_num (summary_get hs t))))"

text \<open>
  The two branches of \<^verbatim>\<open>Array.isArray(token)\<close>. In the single-asset branch
  \<^verbatim>\<open>({ total } = holdingsSummary[token])\<close> throws on \<open>undefined\<close> and otherwise reads the
  property \<^verbatim>\<open>total\<close> of a number, which is \<open>undefined\<close>.
\<close>

definition alloc_total ::
  "(real \<Rightarrow> jsnum) \<Rightarrow> allocations \<Rightarrow> amounts \<Rightarrow> jsnum \<Rightarrow> (string \<times> jsnum option) list \<Rightarrow> string \<Rightarrow>
   scope \<Rightarrow> error + jsnum \<times> jsnum option" where
  "alloc_total rnd allocs th ts hs sid sc =
     (case sc of
        Basket toks \<Rightarrow>
          (case basket_loop rnd allocs th ts hs sid toks (Fin 0, Fin 0) of
             Inl e \<Rightarrow> Inl e
           | Inr pr \<Rightarrow> Inr (fst pr, Some (snd pr)))
      | Single t \<Rightarrow>
          (case alloc_term rnd allocs th ts sid t of
             Inl e \<Rightarrow> Inl e
           | Inr a \<Rightarrow>
               (case summary_get hs t of
                  None \<Rightarrow> Inl TypeError
                | Some n \<Rightarrow> Inr (a, None))))"

text \<open>
  The callback of \<^verbatim>\<open>strategies?.map\<close>: \<^verbatim>\<open>null\<close> (here \<open>None\<close>) when the snapshot has
  no entry for the strategy or there is no quote under the entry's key.
\<close>

definition outcome_row ::
  "(real \<Rightarrow> jsnum) \<Rightarrow> details \<Rightarrow> apys \<Rightarrow> allocations \<Rightarrow> jsnum \<Rightarrow> strategy \<Rightarrow> error + row option" where
  "outcome_row rnd d quotes allocs boostMultiplier e =
     (case map_of (ousdStrategies d) (strategyId e) of
        None \<Rightarrow> Inr None
      | Some sd \<Rightarrow>
          (case map_of quotes (apy e) of
             None \<Rightarrow> Inr None
           | Some q \<Rightarrow>
               (case alloc_total rnd allocs (totalHoldings d) (totalStables d) (holdingsSummary d)
                       (strategyId e) (token e) of
                  Inl err \<Rightarrow> Inl err
                | Inr pr \<Rightarrow>
                    (let strat = js_add rnd (base q) (reward q);
                         boosted = js_mul rnd strat boostMultiplier;
                         weighted = js_mul rnd (fst pr) boosted
                     in Inr (Some
                          \<lparr>row_name = name sd,
                           row_total = snd pr,
                           row_allocation = fst pr,
                           row_allocationAmount = js_mul rnd (fst pr) (totalStables d),
                           row_base = base q,
                           row_reward = reward q,
                           row_strategy = strat,
                           row_boosted = boosted,
                           row_weighted = weighted,
                           row_token = token e\<rparr>)))))"

text \<open>\<^verbatim>\<open>map\<close> over the catalog; the first throw leaves the whole effect.\<close>

fun outcome ::
  "(real \<Rightarrow> jsnum) \<Rightarrow> details \<Rightarrow> apys \<Rightarrow> allocations \<Rightarrow> jsnum \<Rightarrow> strategy list \<Rightarrow> error + row option list" where
  "outcome rnd d quotes allocs boostMultiplier [] = Inr []"
| "outcome rnd d quotes allocs boostMultiplier (e # es) =
     (case outcome_row rnd d quotes allocs boostMultiplier e of
        Inl err \<Rightarrow> Inl err
      | Inr r \<Rightarrow>
          (case outcome rnd d quotes allocs boostMultiplier es of
             Inl err \<Rightarrow> Inl err
           | Inr rs \<Rightarrow> Inr (r # rs)))"

text \<open>\<^verbatim>\<open>item?.weighted || 0\<close>, and the \<^verbatim>\<open>reduce\<close> that sums it.\<close>

definition weighted_or_zero :: "row option \<Rightarrow> jsnum" where
  "weighted_or_zero item = or_zero (map_option row_weighted item)"

definition calculatedAPY :: "(real \<Rightarrow> jsnum) \<Rightarrow> row option list \<Rightarrow> jsnum" where
  "calculatedAPY rnd rows = foldl (\<lambda>acc item. js_add rnd acc (weighted_or_zero item)) (Fin 0) rows"

record sim_data =
  data_outcome :: "row option list"
  data_calculatedAPY :: jsnum
  data_details :: details

text \<open>
  The effect of \<^verbatim>\<open>useSimulator\<close> up to the call of \<^verbatim>\<open>setAllocations\<close>, on the
  fetched snapshot: the details, and the baseline that becomes the new allocations.
\<close>

definition seed :: "(real \<Rightarrow> jsnum) \<Rightarrow> snapshot \<Rightarrow> error + details \<times> allocations" where
  "seed rnd fetched =
     (case fetchOUSDDetails rnd fetched of
        Inl e \<Rightarrow> Inl e
      | Inr d \<Rightarrow>
          (case all_holdings (ousdStrategies d) strategy_ids of
             Inl e \<Rightarrow> Inl e
           | Inr hs \<Rightarrow> Inr (d, baseline rnd hs (totalHoldings d))))"

text \<open>
  One run of the effect on the fetched snapshot and quotes, the current
  \<^verbatim>\<open>allocations\<close> and \<^verbatim>\<open>boostMultiplier\<close>, over a catalog. A throw before
  \<^verbatim>\<open>setAllocations\<close> leaves nothing; after it the allocations are the baseline, and the
  rows either throw or are set as data. The rows are computed from the allocations of the
  render that started the effect, not from the baseline.
\<close>

definition project ::
  "(real \<Rightarrow> jsnum) \<Rightarrow> strategy list \<Rightarrow> snapshot \<Rightarrow> apys \<Rightarrow> allocations \<Rightarrow> jsnum \<Rightarrow>
   error + allocations \<times> (error + sim_data)" where
  "project rnd catalog fetched quotes allocs boostMultiplier =
     (case seed rnd fetched of
        Inl e \<Rightarrow> Inl e
      | Inr da \<Rightarrow>
          Inr (snd da,
               case outcome rnd (fst da) quotes allocs boostMultiplier catalog of
                 Inl e \<Rightarrow> Inl e
               | Inr rows \<Rightarrow>
                   Inr \<lparr>data_outcome = rows,
                        data_calculatedAPY = calculatedAPY rnd rows,
                        data_details = fst da\<rparr>))"

definition simulate ::
  "(real \<Rightarrow> jsnum) \<Rightarrow> snapshot \<Rightarrow> apys \<Rightarrow> allocations \<Rightarrow> jsnum \<Rightarrow> error + allocations \<times> (error + sim_data)" where
  "simulate rnd = project rnd strategies"

section \<open>Reference quantities and example inputs\<close>

text \<open>Whether a run returned rather than threw.\<close>

definition returns :: "error + 'a \<Rightarrow> bool" where
  "returns r = (case r of Inl e \<Rightarrow> False | Inr v \<Rightarrow> True)"

text \<open>The non-null entries of \<^verbatim>\<open>outcome\<close>, in order.\<close>

fun emitted :: "row option list \<Rightarrow> row list" where
  "emitted [] = []"
| "emitted (None # rs) = emitted rs"
| "emitted (Some r # rs) = r # emitted rs"

text \<open>
  The left-to-right sum of a list of numbers, as \<^verbatim>\<open>reduce\<close> with \<open>+\<close> from \<open>0\<close>. A sum
  of doubles depends on the order of its terms.
\<close>

definition js_sum :: "(real \<Rightarrow> jsnum) \<Rightarrow> jsnum list \<Rightarrow> jsnum" where
  "js_sum rnd ns = foldl (js_add rnd) (Fin 0) ns"

text \<open>
  A rounding for the examples: to the nearest multiple of \<open>1/1024\<close>, and to an infinity
  from \<open>2^20\<close> on. It rounds \<open>1/7\<close> to \<open>73/512\<close>.
\<close>

definition grid_cut :: "real \<Rightarrow> jsnum" where
  "grid_cut z = (if 1048576 \<le> z then PInf else if z \<le> - 1048576 then NInf else Fin z)"

definition grid :: "real \<Rightarrow> jsnum" where
  "grid x = grid_cut (of_int \<lfloor>x * 1024 + 1 / 2\<rfloor> / 1024)"

text \<open>
  A snapshot in which each of the seven strategies holds the same amounts, and a quote
  set with three of the catalog's keys.
\<close>

definition uniform_snapshot :: "amounts \<Rightarrow> snapshot" where
  "uniform_snapshot h = map (\<lambda>s. (s, \<lparr>name = Some s, holdings = Some h\<rparr>)) strategy_ids"

definition ex_quotes :: apys where
  "ex_quotes =
     [(''ADAI'', \<lparr>base = Fin (1 / 32), reward = Fin (1 / 64)\<rparr>),
      (''AUSDC'', \<lparr>base = Fin (1 / 32), reward = Fin 0\<rparr>),
      (''convex3pool'', \<lparr>base = Fin (1 / 64), reward = Fin (1 / 32)\<rparr>)]"


definition ex_amounts :: amounts where
  "ex_amounts = [(''DAI'', Fin 1), (''USDC'', Fin 2), (''USDT'', Fin 3)]"

definition no_dai_amounts :: amounts where
  "no_dai_amounts = [(''DAI'', Fin 0), (''USDC'', Fin 2), (''USDT'', Fin 2)]"

definition zero_amounts :: amounts where
  "zero_amounts = [(''DAI'', Fin 0), (''USDC'', Fin 0), (''USDT'', Fin 0)]"

definition ex_allocations :: allocations where
  "ex_allocations =
     onChangeAllocation ''USDC'' ''threepoolstrat_holding'' (Fin (1 / 4))
       (onChangeAllocation ''DAI'' ''threepoolstrat_holding'' (Fin (1 / 2))
         (onChangeAllocation ''DAI'' ''aavestrat_holding'' (Fin (1 / 2)) initial_allocations))"

text \<open>
  A fetched snapshot with the vault entry that \<^verbatim>\<open>fetchOUSDDetails\<close> deletes and with a
  strategy that also holds a token outside the three stablecoins.
\<close>

definition ex_fetched :: snapshot where
  "ex_fetched =
     (''vault_holding'', \<lparr>name = None, holdings = Some [(''DAI'', Fin 100)]\<rparr>)
       # (''extra_strat'', \<lparr>name = None, holdings = Some [(''LUSD'', Fin 5), (''DAI'', Fin 1)]\<rparr>)
       # uniform_snapshot ex_amounts"

text \<open>
  The amounts of token \<open>t\<close> in a snapshot, in the order in which the strategies and their
  holdings list them.
\<close>

definition amounts_of :: "snapshot \<Rightarrow> string \<Rightarrow> jsnum list" where
  "amounts_of s t =
     concat (map (\<lambda>kd. case holdings (snd kd) of
                          None \<Rightarrow> []
                        | Some h \<Rightarrow> map snd (filter (\<lambda>tv. fst tv = t) h)) s)"

text \<open>
  The totals in the specification's words, for comparison with the code: the total of an
  asset is the sum over the strategies of the amounts they hold of it (\<open>0\<close> when none holds
  any), and the grand total is the sum over the assets of these totals. The assets are the
  fixed enumeration \<open>stables\<close>; the sums are taken from left to right.
\<close>

definition spec_perAssetTotal :: "(real \<Rightarrow> jsnum) \<Rightarrow> snapshot \<Rightarrow> string \<Rightarrow> jsnum" where
  "spec_perAssetTotal rnd s t = js_sum rnd (amounts_of s t)"

definition spec_grandTotal :: "(real \<Rightarrow> jsnum) \<Rightarrow> snapshot \<Rightarrow> jsnum" where
  "spec_grandTotal rnd s = js_sum rnd (map (spec_perAssetTotal rnd s) stables)"

text \<open>
  The total that the code keeps for one token, seen alone: nothing when no strategy lists
  the token; otherwise the amounts are added from \<open>0\<close>, and before each addition a running
  total that is \<open>NaN\<close> is reset to \<open>0\<close>.
\<close>

definition add_amount :: "(real \<Rightarrow> jsnum) \<Rightarrow> jsnum \<Rightarrow> jsnum \<Rightarrow> jsnum" where
  "add_amount rnd cur v = js_add rnd (if js_truthy cur then cur else Fin 0) v"

definition running_total :: "(real \<Rightarrow> jsnum) \<Rightarrow> snapshot \<Rightarrow> string \<Rightarrow> jsnum option" where
  "running_total rnd s t =
     (if amounts_of s t = [] then None
      else Some (foldl (add_amount rnd) (Fin 0) (amounts_of s t)))"

text \<open>
  The entry of one token in the running totals after the amounts \<open>vs\<close> of that token have
  been added to the entry \<open>cur\<close>, as the \<^verbatim>\<open>forEach\<close> of \<^verbatim>\<open>processStrategies\<close> does it.
\<close>

definition token_total :: "(real \<Rightarrow> jsnum) \<Rightarrow> jsnum option \<Rightarrow> jsnum list \<Rightarrow> jsnum option" where
  "token_total rnd cur vs = foldl (\<lambda>c v. Some (js_add rnd (or_zero c) v)) cur vs"

text \<open>A snapshot without the tokens that are not among the three stablecoins.\<close>

definition drop_foreign :: "snapshot \<Rightarrow> snapshot" where
  "drop_foreign s =
     map (\<lambda>kd. (fst kd,
                 \<lparr>name = name (snd kd),
                  holdings = map_option (filter (\<lambda>tv. fst tv \<in> set stables)) (holdings (snd kd))\<rparr>)) s"

text \<open>
  Conditions on a snapshot: every amount is finite; every amount is a double that is not
  negative. A total of amounts of the second kind is a double that is not negative, or
  \<open>\<infinity>\<close>.
\<close>

definition is_fin :: "jsnum \<Rightarrow> bool" where
  "is_fin n = (case n of Fin r \<Rightarrow> True | PInf \<Rightarrow> False | NInf \<Rightarrow> False | NaN \<Rightarrow> False)"

definition nonneg_double :: "(real \<Rightarrow> jsnum) \<Rightarrow> jsnum \<Rightarrow> bool" where
  "nonneg_double rnd n =
     (case n of Fin r \<Rightarrow> 0 \<le> r \<and> is_double rnd r | PInf \<Rightarrow> False | NInf \<Rightarrow> False | NaN \<Rightarrow> False)"

definition nonneg_total :: "(real \<Rightarrow> jsnum) \<Rightarrow> jsnum \<Rightarrow> bool" where
  "nonneg_total rnd n =
     (case n of Fin r \<Rightarrow> 0 \<le> r \<and> is_double rnd r | PInf \<Rightarrow> True | NInf \<Rightarrow> False | NaN \<Rightarrow> False)"

definition all_amounts :: "(jsnum \<Rightarrow> bool) \<Rightarrow> snapshot \<Rightarrow> bool" where
  "all_amounts P s =
     list_all (\<lambda>kd. case holdings (snd kd) of
                       None \<Rightarrow> True
                     | Some h \<Rightarrow> list_all (\<lambda>tv. P (snd tv)) h) s"

definition finite_snapshot :: "snapshot \<Rightarrow> bool" where
  "finite_snapshot s = all_amounts is_fin s"

definition nonneg_snapshot :: "(real \<Rightarrow> jsnum) \<Rightarrow> snapshot \<Rightarrow> bool" where
  "nonneg_snapshot rnd s = all_amounts (nonneg_double rnd) s"

text \<open>Every total that is kept is a double that is not negative, or \<open>\<infinity>\<close>.\<close>

definition totals_ok :: "(real \<Rightarrow> jsnum) \<Rightarrow> amounts \<Rightarrow> bool" where
  "totals_ok rnd acc = (\<forall>t v. map_of acc t = Some v \<longrightarrow> nonneg_total rnd v)"

text \<open>Every strategy of the snapshot holds \<open>0\<close> of token \<open>t\<close>, or does not list it.\<close>

definition holds_none :: "snapshot \<Rightarrow> string \<Rightarrow> bool" where
  "holds_none s t =
     list_all (\<lambda>kd. case holdings (snd kd) of
                       None \<Rightarrow> True
                     | Some h \<Rightarrow> list_all (\<lambda>tv. fst tv \<noteq> t \<or> snd tv = Fin 0) h) s"

text \<open>The tokens of a catalog entry's scope.\<close>

fun scope_tokens :: "scope \<Rightarrow> string list" where
  "scope_tokens (Single t) = [t]"
| "scope_tokens (Basket toks) = toks"

definition stable_catalog :: "strategy list \<Rightarrow> bool" where
  "stable_catalog c =
     list_all (\<lambda>e. scope_tokens (token e) \<noteq> []
                  \<and> list_all (\<lambda>t. t \<in> set stables) (scope_tokens (token e))) c"

text \<open>
  Conditions under which no property read of a run can fail, whatever the numbers are:
  the snapshot (without the vault entry) gives every entry its holdings, has the seven
  strategies, and lists each stablecoin in some strategy's holdings; the allocations have
  an entry for each stablecoin.
\<close>

definition listed :: "snapshot \<Rightarrow> string \<Rightarrow> bool" where
  "listed s t =
     list_ex (\<lambda>kd. case holdings (snd kd) of None \<Rightarrow> False | Some h \<Rightarrow> map_of h t \<noteq> None) s"



section \<open>Facts about the arithmetic\<close>

lemma js_add_zero [simp]: "js_add rnd x (Fin 0) = x"
  by (cases x) simp_all

lemma rd_zero [simp]: "rd rnd 0 = Fin 0"
  by (simp add: rd_def)

lemma mul_zero_falsy: "js_mul rnd s (Fin 0) = NaN \<or> js_mul rnd s (Fin 0) = Fin 0"
  by (cases s) (simp_all add: signed_inf_def)

lemma mul_falsy: "y = NaN \<or> y = Fin 0 \<Longrightarrow> js_mul rnd x y = NaN \<or> js_mul rnd x y = Fin 0"
  by (cases x) (auto simp: signed_inf_def)

lemma js_add_NaN_right: "js_add rnd x NaN = NaN"
  by (cases x) simp_all

lemma div_falsy_zero:
  "x = NaN \<or> x = Fin 0 \<Longrightarrow> y = NaN \<or> y = Fin 0 \<Longrightarrow> js_div rnd x y = NaN"
  by (auto simp: signed_inf_def)

lemma div_by_zero_NaN: "x = NaN \<or> x = Fin 0 \<Longrightarrow> js_div rnd x (Fin 0) = NaN"
  by (auto simp: signed_inf_def)

lemma to_num_falsy:
  "m = None \<or> m = Some (Fin 0) \<Longrightarrow> to_num m = NaN \<or> to_num m = Fin 0"
  by (auto simp: to_num_def)

lemma js_sum_all_NaN:
  assumes "ns \<noteq> []" and "\<forall>n \<in> set ns. n = NaN"
  shows "js_sum rnd ns = NaN"
proof -
  have "foldl (js_add rnd) x ns = NaN" if "ns \<noteq> []" "\<forall>n \<in> set ns. n = NaN" for x
    using that
  proof (induction ns arbitrary: x)
    case Nil
    then show ?case by simp
  next
    case (Cons n ns)
    then show ?case by (cases ns) (auto simp: js_add_NaN_right)
  qed
  with assms show ?thesis by (simp add: js_sum_def)
qed

lemma js_sum_zeros: "js_sum rnd (map (\<lambda>r. Fin 0) rs) = Fin 0"
  unfolding js_sum_def by (induction rs) auto

section \<open>Facts about the projection\<close>

lemma outcome_length: "outcome rnd d q a b c = Inr rows \<Longrightarrow> length rows = length c"
  by (induction c arbitrary: rows) (auto split: sum.splits)

lemma outcome_nth:
  "outcome rnd d q a b c = Inr rows \<Longrightarrow> i < length c \<Longrightarrow> outcome_row rnd d q a b (c ! i) = Inr (rows ! i)"
proof (induction c arbitrary: rows i)
  case Nil
  then show ?case by simp
next
  case (Cons e es)
  then show ?case by (cases i) (auto split: sum.splits)
qed

lemma outcome_append:
  "outcome rnd d q a b (xs @ ys) =
     (case outcome rnd d q a b xs of
        Inl e \<Rightarrow> Inl e
      | Inr r1 \<Rightarrow> (case outcome rnd d q a b ys of Inl e \<Rightarrow> Inl e | Inr r2 \<Rightarrow> Inr (r1 @ r2)))"
  by (induction xs) (auto split: sum.splits)

lemma seed_InrD:
  assumes "seed rnd f = Inr (d, al)"
  shows "\<exists>hs. fetchOUSDDetails rnd f = Inr d \<and> all_holdings (ousdStrategies d) strategy_ids = Inr hs
           \<and> al = baseline rnd hs (totalHoldings d)"
  using assms by (auto simp: seed_def split: sum.splits)

lemma project_Inr:
  assumes "project rnd c f q a b = Inr (al, Inr data)"
  shows "seed rnd f = Inr (data_details data, al)
       \<and> fetchOUSDDetails rnd f = Inr (data_details data)
       \<and> outcome rnd (data_details data) q a b c = Inr (data_outcome data)
       \<and> data_calculatedAPY data = calculatedAPY rnd (data_outcome data)"
  using assms by (auto simp: project_def seed_def split: sum.splits)

lemma outcome_row_SomeD:
  assumes "outcome_row rnd d q a b e = Inr (Some r)"
  shows "\<exists>sd qt al tot.
           map_of (ousdStrategies d) (strategyId e) = Some sd \<and> map_of q (apy e) = Some qt
         \<and> alloc_total rnd a (totalHoldings d) (totalStables d) (holdingsSummary d)
               (strategyId e) (token e) = Inr (al, tot)
         \<and> r = \<lparr>row_name = name sd, row_total = tot, row_allocation = al,
                 row_allocationAmount = js_mul rnd al (totalStables d),
                 row_base = base qt, row_reward = reward qt,
                 row_strategy = js_add rnd (base qt) (reward qt),
                 row_boosted = js_mul rnd (js_add rnd (base qt) (reward qt)) b,
                 row_weighted = js_mul rnd al (js_mul rnd (js_add rnd (base qt) (reward qt)) b),
                 row_token = token e\<rparr>"
  using assms
  by (auto simp: outcome_row_def Let_def split: option.splits sum.splits)

lemma outcome_row_no_quote:
  "map_of q (apy e) = None \<Longrightarrow> outcome_row rnd d q a b e = Inr None"
  by (simp add: outcome_row_def split: option.splits)

lemma alloc_term_InrD:
  "alloc_term rnd a th ts sid t = Inr x \<Longrightarrow>
   x = js_div rnd (js_mul rnd (to_num (cell a t sid)) (to_num (map_of th t))) ts"
  by (auto simp: alloc_term_def cell_def split: option.splits)

lemma basket_loop_InrD:
  "basket_loop rnd a th ts hs sid toks pr = Inr pr' \<Longrightarrow>
     fst pr' = foldl (js_add rnd) (fst pr)
                 (map (\<lambda>t. js_div rnd (js_mul rnd (to_num (cell a t sid)) (to_num (map_of th t))) ts) toks)
   \<and> snd pr' = foldl (js_add rnd) (snd pr) (map (\<lambda>t. to_num (summary_get hs t)) toks)"
proof (induction toks arbitrary: pr)
  case Nil
  then show ?case by simp
next
  case (Cons t toks)
  then show ?case
    by (auto split: sum.splits dest!: alloc_term_InrD)
qed

lemma alloc_total_InrD:
  assumes "alloc_total rnd a th ts hs sid sc = Inr (al, tot)"
  shows "case sc of
           Single t \<Rightarrow>
             al = js_div rnd (js_mul rnd (to_num (cell a t sid)) (to_num (map_of th t))) ts \<and> tot = None
         | Basket toks \<Rightarrow>
             al = js_sum rnd (map (\<lambda>t. js_div rnd (js_mul rnd (to_num (cell a t sid)) (to_num (map_of th t))) ts) toks)
             \<and> tot = Some (js_sum rnd (map (\<lambda>t. to_num (summary_get hs t)) toks))"
  using assms
  by (auto simp: alloc_total_def js_sum_def split: scope.splits sum.splits option.splits
      dest!: alloc_term_InrD basket_loop_InrD)

section \<open>Facts about the reduction\<close>

lemma calculatedAPY_foldl:
  "foldl (\<lambda>acc item. js_add rnd acc (weighted_or_zero item)) x (r1 @ None # r2)
     = foldl (\<lambda>acc item. js_add rnd acc (weighted_or_zero item)) x (r1 @ r2)"
  by (simp add: weighted_or_zero_def or_zero_def)

lemma calculatedAPY_drop_None: "calculatedAPY rnd (r1 @ None # r2) = calculatedAPY rnd (r1 @ r2)"
  unfolding calculatedAPY_def by (rule calculatedAPY_foldl)

lemma weighted_or_zero_Some:
  "weighted_or_zero (Some r) = (if row_weighted r = NaN then Fin 0 else row_weighted r)"
  by (auto simp: weighted_or_zero_def or_zero_def js_truthy_def)

lemma calculatedAPY_emitted_from:
  "foldl (\<lambda>acc item. js_add rnd acc (weighted_or_zero item)) x rows
     = foldl (js_add rnd) x
         (map (\<lambda>r. if row_weighted r = NaN then Fin 0 else row_weighted r) (emitted rows))"
proof (induction rows arbitrary: x)
  case Nil
  then show ?case by simp
next
  case (Cons item rows)
  then show ?case
    by (cases item) (simp_all add: weighted_or_zero_Some, simp add: weighted_or_zero_def or_zero_def)
qed

lemma calculatedAPY_emitted:
  "calculatedAPY rnd rows
     = js_sum rnd (map (\<lambda>r. if row_weighted r = NaN then Fin 0 else row_weighted r) (emitted rows))"
  by (simp add: calculatedAPY_def js_sum_def calculatedAPY_emitted_from)


lemma outcome_row_boost0:
  assumes "outcome_row rnd d q a (Fin 0) e = Inr item"
  shows "weighted_or_zero item = Fin 0"
proof (cases item)
  case None
  then show ?thesis by (simp add: weighted_or_zero_def or_zero_def)
next
  case (Some r)
  with assms obtain al s where w: "row_weighted r = js_mul rnd al (js_mul rnd s (Fin 0))"
    by (auto dest!: outcome_row_SomeD)
  have "row_weighted r = NaN \<or> row_weighted r = Fin 0"
    unfolding w by (rule mul_falsy [OF mul_zero_falsy])
  with Some show ?thesis
    by (auto simp: weighted_or_zero_def or_zero_def js_truthy_def)
qed

lemma outcome_boost0:
  "outcome rnd d q a (Fin 0) c = Inr rows \<Longrightarrow> \<forall>item \<in> set rows. weighted_or_zero item = Fin 0"
  by (induction c arbitrary: rows) (auto split: sum.splits dest: outcome_row_boost0)

lemma foldl_all_zero:
  "\<forall>item \<in> set rows. weighted_or_zero item = Fin 0 \<Longrightarrow>
   foldl (\<lambda>acc item. js_add rnd acc (weighted_or_zero item)) x rows = x"
  by (induction rows arbitrary: x) auto

lemma emitted_set: "r \<in> set (emitted rows) \<longleftrightarrow> Some r \<in> set rows"
  by (induction rows rule: emitted.induct) auto

section \<open>Facts about the aggregation\<close>

lemma all_amounts_delete: "all_amounts P s \<Longrightarrow> all_amounts P (AList.delete k s)"
  by (auto simp: all_amounts_def AList.delete_eq list_all_iff)

lemma fetchOUSDDetails_InrD:
  assumes "fetchOUSDDetails rnd fetched = Inr d"
  shows "ousdStrategies d = AList.delete ''vault_holding'' fetched
       \<and> processStrategies_from rnd [] (ousdStrategies d) = Inr (totalHoldings d)
       \<and> totalStables d = js_sum rnd (map (\<lambda>t. or_zero (map_of (totalHoldings d) t)) stables)
       \<and> (\<forall>t. summary_get (holdingsSummary d) t
               = (if t \<in> set stables then map_of (totalHoldings d) t else None))"
  using assms
  by (auto simp: fetchOUSDDetails_def processStrategies_def Let_def js_sum_def stables_def
      summary_get_def split: sum.splits)

lemma holds_none_amounts:
  assumes "list_all (\<lambda>tv. fst tv \<noteq> t \<or> snd tv = Fin 0) h"
  shows "map_of h t = None \<or> map_of h t = Some (Fin 0)"
proof (cases "map_of h t")
  case None
  then show ?thesis by simp
next
  case (Some v)
  then have "(t, v) \<in> set h" by (rule map_of_SomeD)
  with assms have "v = Fin 0" by (auto simp: list_all_iff)
  with Some show ?thesis by simp
qed

lemma add_token_none:
  assumes "map_of acc t = None \<or> map_of acc t = Some (Fin 0)"
    and "fst tv \<noteq> t \<or> snd tv = Fin 0"
  shows "map_of (add_token rnd acc tv) t = None \<or> map_of (add_token rnd acc tv) t = Some (Fin 0)"
  using assms
  by (auto simp: add_token_def update_conv' or_zero_def js_truthy_def)

lemma foldl_add_token_none:
  "map_of acc t = None \<or> map_of acc t = Some (Fin 0) \<Longrightarrow>
   list_all (\<lambda>tv. fst tv \<noteq> t \<or> snd tv = Fin 0) h \<Longrightarrow>
   map_of (foldl (add_token rnd) acc h) t = None \<or> map_of (foldl (add_token rnd) acc h) t = Some (Fin 0)"
proof (induction h arbitrary: acc)
  case Nil
  then show ?case by simp
next
  case (Cons tv h)
  from Cons.prems have "map_of (add_token rnd acc tv) t = None \<or> map_of (add_token rnd acc tv) t = Some (Fin 0)"
    by (intro add_token_none) auto
  from Cons.IH [OF this] Cons.prems(2) show ?case by simp
qed

lemma processStrategies_from_none:
  "map_of acc t = None \<or> map_of acc t = Some (Fin 0) \<Longrightarrow> holds_none s t \<Longrightarrow>
   processStrategies_from rnd acc s = Inr th \<Longrightarrow>
   map_of th t = None \<or> map_of th t = Some (Fin 0)"
proof (induction s arbitrary: acc)
  case Nil
  then show ?case by auto
next
  case (Cons kd s)
  from Cons.prems(3) obtain h where h: "holdings (snd kd) = Some h"
    and rest: "processStrategies_from rnd (foldl (add_token rnd) acc h) s = Inr th"
    by (auto split: option.splits)
  from Cons.prems(2) h have zh: "list_all (\<lambda>tv. fst tv \<noteq> t \<or> snd tv = Fin 0) h"
    and zs: "holds_none s t"
    by (auto simp: holds_none_def)
  from Cons.IH [OF foldl_add_token_none [OF Cons.prems(1) zh] zs rest] show ?case .
qed

lemma holdings_of_none:
  assumes "holds_none s t" and "holdings_of s sid = Inr h"
  shows "map_of h t = None \<or> map_of h t = Some (Fin 0)"
proof -
  from assms(2) obtain sd where "map_of s sid = Some sd" and h: "holdings sd = Some h"
    by (auto simp: holdings_of_def split: option.splits)
  then have "(sid, sd) \<in> set s" by (auto dest: map_of_SomeD)
  with assms(1)
  have "case holdings (snd (sid, sd)) of
          None \<Rightarrow> True
        | Some h \<Rightarrow> list_all (\<lambda>tv. fst tv \<noteq> t \<or> snd tv = Fin 0) h"
    unfolding holds_none_def list_all_iff by blast
  with h have "list_all (\<lambda>tv. fst tv \<noteq> t \<or> snd tv = Fin 0) h" by simp
  then show ?thesis by (rule holds_none_amounts)
qed

lemma all_holdings_cells:
  "all_holdings ousd ids = Inr hs \<Longrightarrow> sid \<in> set ids \<Longrightarrow>
   \<exists>h. holdings_of ousd sid = Inr h
      \<and> map_of (map (\<lambda>sh. (fst sh, G (snd sh))) hs) sid = Some (G h)"
proof (induction ids arbitrary: hs)
  case Nil
  then show ?case by simp
next
  case (Cons s ss)
  then show ?case by (auto split: sum.splits)
qed

lemma baseline_cell:
  assumes "all_holdings ousd ids = Inr hs" and "sid \<in> set ids" and "t \<in> set seed_tokens"
  shows "\<exists>h. holdings_of ousd sid = Inr h
           \<and> cell (baseline rnd hs th) t sid = Some (js_div rnd (to_num (map_of h t)) (to_num (map_of th t)))"
proof -
  from all_holdings_cells [OF assms(1,2), of "\<lambda>h. js_div rnd (to_num (map_of h t)) (to_num (map_of th t))"]
  obtain h where h: "holdings_of ousd sid = Inr h"
    and c: "map_of (map (\<lambda>sh. (fst sh, js_div rnd (to_num (map_of (snd sh) t)) (to_num (map_of th t)))) hs) sid
             = Some (js_div rnd (to_num (map_of h t)) (to_num (map_of th t)))"
    by auto
  have "map_of (baseline rnd hs th) t
      = Some (map (\<lambda>sh. (fst sh, js_div rnd (to_num (map_of (snd sh) t)) (to_num (map_of th t)))) hs)"
    using assms(3) by (simp add: baseline_def map_of_map_restrict)
  with h c show ?thesis by (auto simp: cell_def)
qed

lemma alloc_total_zero_grand:
  assumes "alloc_total rnd a th (Fin 0) hs sid sc = Inr (al, tot)"
    and "scope_tokens sc \<noteq> []"
    and "\<forall>t \<in> set (scope_tokens sc). to_num (map_of th t) = NaN \<or> to_num (map_of th t) = Fin 0"
  shows "al = NaN"
proof (cases sc)
  case (Single t)
  with assms(3) have "to_num (map_of th t) = NaN \<or> to_num (map_of th t) = Fin 0" by simp
  then have "js_div rnd (js_mul rnd (to_num (cell a t sid)) (to_num (map_of th t))) (Fin 0) = NaN"
    by (intro div_by_zero_NaN mul_falsy)
  with alloc_total_InrD [OF assms(1)] Single show ?thesis by simp
next
  case (Basket toks)
  have "\<forall>n \<in> set (map (\<lambda>t. js_div rnd (js_mul rnd (to_num (cell a t sid)) (to_num (map_of th t))) (Fin 0)) toks).
          n = NaN"
    using assms(3) Basket by (auto intro!: div_by_zero_NaN mul_falsy)
  moreover from assms(2) Basket have "toks \<noteq> []" by simp
  ultimately have "js_sum rnd (map (\<lambda>t. js_div rnd (js_mul rnd (to_num (cell a t sid)) (to_num (map_of th t))) (Fin 0)) toks) = NaN"
    by (intro js_sum_all_NaN) auto
  with alloc_total_InrD [OF assms(1)] Basket show ?thesis by simp
qed

section \<open>A run on complete inputs returns\<close>

text \<open>
  The only failures of a run are property reads of \<open>undefined\<close>; no arithmetic
  operation throws. When the snapshot and the allocations are complete and the catalog's
  tokens are stablecoins, the run returns with data, whatever the numbers are.
\<close>

lemma add_token_dom: "dom (map_of (add_token rnd acc tv)) = insert (fst tv) (dom (map_of acc))"
  by (simp add: add_token_def update_conv')

lemma foldl_add_token_dom:
  "dom (map_of (foldl (add_token rnd) acc h)) = dom (map_of h) \<union> dom (map_of acc)"
proof (induction h arbitrary: acc)
  case Nil
  then show ?case by simp
next
  case (Cons tv h)
  have d: "dom (map_of (tv # h)) = insert (fst tv) (dom (map_of h))"
    by (cases tv) auto
  have "dom (map_of (foldl (add_token rnd) acc (tv # h)))
      = dom (map_of h) \<union> insert (fst tv) (dom (map_of acc))"
    by (simp add: Cons.IH add_token_dom)
  then show ?case unfolding d by blast
qed

lemma listed_Cons:
  "listed (kd # s) t \<longleftrightarrow>
     (case holdings (snd kd) of None \<Rightarrow> False | Some h \<Rightarrow> t \<in> dom (map_of h)) \<or> listed s t"
  by (auto simp: listed_def split: option.splits)

lemma processStrategies_from_returns:
  "list_all (\<lambda>kd. holdings (snd kd) \<noteq> None) s \<Longrightarrow>
   \<exists>th. processStrategies_from rnd acc s = Inr th
       \<and> (\<forall>t. listed s t \<or> t \<in> dom (map_of acc) \<longrightarrow> t \<in> dom (map_of th))"
proof (induction s arbitrary: acc)
  case Nil
  then show ?case by (simp add: listed_def)
next
  case (Cons kd s)
  from Cons.prems obtain h where h: "holdings (snd kd) = Some h"
    and rest: "list_all (\<lambda>kd. holdings (snd kd) \<noteq> None) s"
    by auto
  from Cons.IH [OF rest, where acc = "foldl (add_token rnd) acc h"]
  obtain th where th: "processStrategies_from rnd (foldl (add_token rnd) acc h) s = Inr th"
    and keys: "\<forall>t. listed s t \<or> t \<in> dom (map_of (foldl (add_token rnd) acc h)) \<longrightarrow> t \<in> dom (map_of th)"
    by blast
  have "t \<in> dom (map_of th)" if "listed (kd # s) t \<or> t \<in> dom (map_of acc)" for t
  proof -
    from that have "listed s t \<or> t \<in> dom (map_of h) \<union> dom (map_of acc)"
      unfolding listed_Cons h by auto
    with keys show ?thesis unfolding foldl_add_token_dom by blast
  qed
  moreover have "processStrategies_from rnd acc (kd # s) = Inr th"
    by (simp add: h th)
  ultimately show ?case by blast
qed









section \<open>Facts about the rounding\<close>

lemma grid_zero: "grid 0 = Fin 0"
  by (simp add: grid_def grid_cut_def)

lemma rd_grid: "rd grid x = grid x"
  by (simp add: rd_def grid_zero)

lemma grid_cut_FinD: "grid_cut z = Fin z' \<Longrightarrow> z' = z \<and> z < 1048576 \<and> - 1048576 < z"
  by (simp add: grid_cut_def split: if_splits)

lemma grid_cut_mono: "z \<le> z' \<Longrightarrow> js_le (grid_cut z) (grid_cut z')"
  by (simp add: grid_cut_def)

lemma grid_idem:
  assumes "grid x = Fin z"
  shows "grid z = Fin z"
proof -
  let ?k = "\<lfloor>x * 1024 + 1 / 2\<rfloor>"
  from assms have "grid_cut (of_int ?k / 1024) = Fin z" by (simp add: grid_def)
  from grid_cut_FinD [OF this] have z: "z = of_int ?k / 1024"
    and b: "of_int ?k / 1024 < (1048576::real)" "- 1048576 < (of_int ?k / 1024 :: real)"
    by blast+
  have "z * 1024 + 1 / 2 = of_int ?k + 1 / 2" by (simp add: z)
  then have "\<lfloor>z * 1024 + 1 / 2\<rfloor> = ?k" by (simp add: floor_unique)
  then have "grid z = grid_cut z" by (simp add: grid_def z)
  also from b have "\<dots> = Fin z" unfolding z grid_cut_def by (simp only: not_le [symmetric] if_False)
  finally show ?thesis .
qed

lemma grid_mono:
  assumes "x \<le> y"
  shows "js_le (grid x) (grid y)"
proof -
  from assms have "\<lfloor>x * 1024 + 1 / 2\<rfloor> \<le> \<lfloor>y * 1024 + 1 / 2\<rfloor>"
    by (intro floor_mono) simp
  then have "real_of_int \<lfloor>x * 1024 + 1 / 2\<rfloor> / 1024 \<le> real_of_int \<lfloor>y * 1024 + 1 / 2\<rfloor> / 1024"
    by (simp add: divide_right_mono)
  then show ?thesis unfolding grid_def by (rule grid_cut_mono)
qed

lemma rounding_grid: "rounding grid"
  unfolding rounding_def rd_grid using grid_idem grid_mono by blast

lemma rounding_exact: "rounding Fin"
  by (simp add: rounding_def rd_def)

lemma rounding_idem: "rounding rnd \<Longrightarrow> rd rnd x = Fin z \<Longrightarrow> is_double rnd z"
  unfolding rounding_def is_double_def by blast

lemma rounding_mono: "rounding rnd \<Longrightarrow> x \<le> y \<Longrightarrow> js_le (rd rnd x) (rd rnd y)"
  unfolding rounding_def by blast

lemma rd_nonneg:
  assumes "rounding rnd" and "0 \<le> x"
  shows "nonneg_total rnd (rd rnd x)"
proof -
  from rounding_mono [OF assms] have le: "js_le (Fin 0) (rd rnd x)" by simp
  show ?thesis
  proof (cases "rd rnd x")
    case (Fin z)
    with le rounding_idem [OF assms(1) Fin] show ?thesis by (simp add: nonneg_total_def)
  qed (use le in \<open>simp_all add: nonneg_total_def\<close>)
qed

lemma nonneg_total_zero: "nonneg_total rnd (Fin 0)"
  by (simp add: nonneg_total_def is_double_def)

lemma nonneg_double_total: "nonneg_double rnd n \<Longrightarrow> nonneg_total rnd n"
  by (cases n) (simp_all add: nonneg_double_def nonneg_total_def)

lemma add_nonneg_total:
  assumes "rounding rnd" and "nonneg_total rnd a" and "nonneg_total rnd b"
  shows "nonneg_total rnd (js_add rnd a b)"
proof (cases a)
  case (Fin x)
  note a = this
  show ?thesis
  proof (cases b)
    case (Fin y)
    with a assms(2,3) have "0 \<le> x + y" by (simp add: nonneg_total_def)
    from rd_nonneg [OF assms(1) this] a Fin assms(2,3) show ?thesis by simp
  qed (use a assms(3) in \<open>simp_all add: nonneg_total_def\<close>)
next
  case PInf
  with assms(3) show ?thesis by (cases b) (simp_all add: nonneg_total_def)
qed (use assms(2) in \<open>simp_all add: nonneg_total_def\<close>)

lemma add_zero_nonneg:
  assumes "rounding rnd" and "nonneg_total rnd a" and "nonneg_total rnd b"
    and "js_add rnd a b = Fin 0"
  shows "a = Fin 0 \<and> b = Fin 0"
proof -
  from assms(2,4) obtain x where a: "a = Fin x" and x: "0 \<le> x" "is_double rnd x"
    by (cases a; cases b) (auto simp: nonneg_total_def)
  from assms(3,4) a obtain y where b: "b = Fin y" and y: "0 \<le> y" "is_double rnd y"
    by (cases b) (auto simp: nonneg_total_def)
  show ?thesis
  proof (cases "x = 0 \<or> y = 0")
    case True
    with assms(4) a b show ?thesis by (auto split: if_splits)
  next
    case False
    with assms(4) a b have s: "rd rnd (x + y) = Fin 0" by simp
    from rounding_mono [OF assms(1), of x "x + y"] y(1) x(2) s have "x \<le> 0"
      by (simp add: is_double_def)
    with x(1) False show ?thesis by simp
  qed
qed

lemma or_zero_nonneg_total:
  "(\<And>v. m = Some v \<Longrightarrow> nonneg_total rnd v) \<Longrightarrow> nonneg_total rnd (or_zero m)"
  by (cases m) (auto simp: or_zero_def nonneg_total_zero)

lemma or_zero_falsy:
  "or_zero m = Fin 0 \<Longrightarrow> to_num m = NaN \<or> to_num m = Fin 0"
  by (cases m) (auto simp: or_zero_def to_num_def js_truthy_def split: if_splits)

lemma add_token_totals_ok:
  assumes "rounding rnd" and "totals_ok rnd acc" and "nonneg_double rnd (snd tv)"
  shows "totals_ok rnd (add_token rnd acc tv)"
proof -
  have "nonneg_total rnd (or_zero (map_of acc (fst tv)))"
    using assms(2) by (intro or_zero_nonneg_total) (auto simp: totals_ok_def)
  from add_nonneg_total [OF assms(1) this nonneg_double_total [OF assms(3)]] assms(2)
  show ?thesis by (auto simp: totals_ok_def add_token_def update_conv')
qed

lemma foldl_add_token_totals_ok:
  "rounding rnd \<Longrightarrow> totals_ok rnd acc \<Longrightarrow> list_all (\<lambda>tv. nonneg_double rnd (snd tv)) h \<Longrightarrow>
   totals_ok rnd (foldl (add_token rnd) acc h)"
  by (induction h arbitrary: acc) (simp_all add: add_token_totals_ok)

lemma processStrategies_from_totals_ok:
  "rounding rnd \<Longrightarrow> totals_ok rnd acc \<Longrightarrow> nonneg_snapshot rnd s \<Longrightarrow>
   processStrategies_from rnd acc s = Inr th \<Longrightarrow> totals_ok rnd th"
proof (induction s arbitrary: acc)
  case Nil
  then show ?case by simp
next
  case (Cons kd s)
  from Cons.prems(4) obtain h where h: "holdings (snd kd) = Some h"
    and rest: "processStrategies_from rnd (foldl (add_token rnd) acc h) s = Inr th"
    by (auto split: option.splits)
  from Cons.prems(3) h have nh: "list_all (\<lambda>tv. nonneg_double rnd (snd tv)) h"
    and ns: "nonneg_snapshot rnd s"
    by (auto simp: nonneg_snapshot_def all_amounts_def)
  from Cons.IH [OF Cons.prems(1) foldl_add_token_totals_ok [OF Cons.prems(1,2) nh] ns rest]
  show ?case .
qed

lemma fetch_totals_ok:
  assumes "rounding rnd" and "nonneg_snapshot rnd fetched" and "fetchOUSDDetails rnd fetched = Inr d"
  shows "totals_ok rnd (totalHoldings d)"
proof -
  from fetchOUSDDetails_InrD [OF assms(3)]
  have o: "ousdStrategies d = AList.delete ''vault_holding'' fetched"
    and p: "processStrategies_from rnd [] (ousdStrategies d) = Inr (totalHoldings d)"
    by blast+
  from assms(2) have "nonneg_snapshot rnd (ousdStrategies d)"
    unfolding nonneg_snapshot_def o by (rule all_amounts_delete)
  from processStrategies_from_totals_ok [OF assms(1) _ this p] show ?thesis
    by (simp add: totals_ok_def)
qed

lemma zero_grand_total_stable:
  assumes "rounding rnd" and "nonneg_snapshot rnd fetched"
    and "fetchOUSDDetails rnd fetched = Inr d"
    and "totalStables d = Fin 0" and "t \<in> set stables"
  shows "to_num (map_of (totalHoldings d) t) = NaN \<or> to_num (map_of (totalHoldings d) t) = Fin 0"
proof -
  let ?p = "\<lambda>t. or_zero (map_of (totalHoldings d) t)"
  have ok: "nonneg_total rnd (?p t)" for t
    using fetch_totals_ok [OF assms(1-3)]
    by (intro or_zero_nonneg_total) (auto simp: totals_ok_def)
  from fetchOUSDDetails_InrD [OF assms(3)] assms(4)
  have "js_add rnd (js_add rnd (js_add rnd (Fin 0) (?p ''DAI'')) (?p ''USDT'')) (?p ''USDC'') = Fin 0"
    by (simp add: js_sum_def stables_def)
  from add_zero_nonneg [OF assms(1) _ ok this]
  have c: "?p ''USDC'' = Fin 0"
    and s2: "js_add rnd (js_add rnd (Fin 0) (?p ''DAI'')) (?p ''USDT'') = Fin 0"
    by (simp_all add: add_nonneg_total [OF assms(1)] nonneg_total_zero ok)
  from add_zero_nonneg [OF assms(1) _ ok s2]
  have b: "?p ''USDT'' = Fin 0" and s1: "js_add rnd (Fin 0) (?p ''DAI'') = Fin 0"
    by (simp_all add: add_nonneg_total [OF assms(1)] nonneg_total_zero ok)
  from add_zero_nonneg [OF assms(1) nonneg_total_zero ok s1] have a: "?p ''DAI'' = Fin 0"
    by simp
  from a b c assms(5) have "?p t = Fin 0" by (auto simp: stables_def)
  then show ?thesis by (rule or_zero_falsy)
qed

section \<open>Facts about the totals per token\<close>



lemma add_token_lookup:
  "map_of (add_token rnd acc tv) t =
     (if fst tv = t then Some (js_add rnd (or_zero (map_of acc t)) (snd tv)) else map_of acc t)"
  by (auto simp: add_token_def update_conv')

lemma foldl_add_token_total:
  "map_of (foldl (add_token rnd) acc h) t =
     token_total rnd (map_of acc t) (map snd (filter (\<lambda>tv. fst tv = t) h))"
proof (induction h arbitrary: acc)
  case Nil
  then show ?case by (simp add: token_total_def)
next
  case (Cons tv h)
  show ?case by (simp add: Cons.IH add_token_lookup token_total_def)
qed

lemma token_total_append:
  "token_total rnd cur (vs @ ws) = token_total rnd (token_total rnd cur vs) ws"
  by (simp add: token_total_def)

lemma processStrategies_from_total:
  "processStrategies_from rnd acc s = Inr th \<Longrightarrow>
   map_of th t = token_total rnd (map_of acc t) (amounts_of s t)"
proof (induction s arbitrary: acc)
  case Nil
  then show ?case by (simp add: amounts_of_def token_total_def)
next
  case (Cons kd s)
  from Cons.prems obtain h where h: "holdings (snd kd) = Some h"
    and rest: "processStrategies_from rnd (foldl (add_token rnd) acc h) s = Inr th"
    by (auto split: option.splits)
  have "amounts_of (kd # s) t = map snd (filter (\<lambda>tv. fst tv = t) h) @ amounts_of s t"
    by (simp add: amounts_of_def h)
  with Cons.IH [OF rest] show ?case
    by (simp add: token_total_append foldl_add_token_total)
qed

lemma token_total_Some:
  "token_total rnd (Some x) vs = Some (foldl (add_amount rnd) x vs)"
  by (induction vs arbitrary: x) (simp_all add: token_total_def add_amount_def or_zero_def)

lemma token_total_None:
  "token_total rnd None vs = (if vs = [] then None else Some (foldl (add_amount rnd) (Fin 0) vs))"
proof (cases vs)
  case Nil
  then show ?thesis by (simp add: token_total_def)
next
  case (Cons v ws)
  have "token_total rnd None (v # ws) = token_total rnd (Some (js_add rnd (Fin 0) v)) ws"
    by (simp add: token_total_def or_zero_def)
  then show ?thesis
    by (simp add: Cons token_total_Some add_amount_def js_truthy_def)
qed

lemma totalHoldings_running:
  assumes "fetchOUSDDetails rnd fetched = Inr d"
  shows "map_of (totalHoldings d) t = running_total rnd (ousdStrategies d) t"
proof -
  from fetchOUSDDetails_InrD [OF assms]
  have "processStrategies_from rnd [] (ousdStrategies d) = Inr (totalHoldings d)" by blast
  from processStrategies_from_total [OF this, of t] show ?thesis
    by (simp add: token_total_None running_total_def)
qed

lemma processStrategies_from_holdings:
  "processStrategies_from rnd acc s = Inr th \<Longrightarrow> list_all (\<lambda>kd. holdings (snd kd) \<noteq> None) s"
  by (induction s arbitrary: acc) (auto split: option.splits)

lemma drop_foreign_delete:
  "AList.delete k (drop_foreign s) = drop_foreign (AList.delete k s)"
  by (induction s) (simp_all add: drop_foreign_def)

lemma amounts_of_drop_foreign:
  "t \<in> set stables \<Longrightarrow> amounts_of (drop_foreign s) t = amounts_of s t"
proof (induction s)
  case Nil
  then show ?case by (simp add: amounts_of_def drop_foreign_def)
next
  case (Cons kd s)
  have f: "(fst x \<in> set stables \<and> fst x = t) = (fst x = t)" for x :: "string \<times> jsnum"
    using Cons.prems by auto
  from Cons show ?case
    by (cases "holdings (snd kd)") (simp_all add: amounts_of_def drop_foreign_def f)
qed

lemma fetch_drop_foreign:
  assumes "fetchOUSDDetails rnd fetched = Inr d"
  shows "\<exists>d'. fetchOUSDDetails rnd (drop_foreign fetched) = Inr d'
           \<and> ousdStrategies d' = drop_foreign (ousdStrategies d)
           \<and> holdingsSummary d' = holdingsSummary d \<and> totalStables d' = totalStables d"
proof -
  let ?s = "ousdStrategies d"
  from fetchOUSDDetails_InrD [OF assms]
  have o: "?s = AList.delete ''vault_holding'' fetched"
    and p: "processStrategies_from rnd [] ?s = Inr (totalHoldings d)"
    by blast+
  from processStrategies_from_holdings [OF p]
  have "list_all (\<lambda>kd. holdings (snd kd) \<noteq> None) (drop_foreign ?s)"
    by (auto simp: drop_foreign_def list_all_iff)
  from processStrategies_from_returns [OF this, where acc = "[]" and rnd = rnd]
  obtain th' where p': "processStrategies_from rnd [] (drop_foreign ?s) = Inr th'" by blast
  have eq: "map_of th' t = map_of (totalHoldings d) t" if "t \<in> set stables" for t
    using processStrategies_from_total [OF p', of t] processStrategies_from_total [OF p, of t]
      amounts_of_drop_foreign [OF that, of ?s]
    by simp
  have e: "map_of th' ''DAI'' = map_of (totalHoldings d) ''DAI''"
    "map_of th' ''USDT'' = map_of (totalHoldings d) ''USDT''"
    "map_of th' ''USDC'' = map_of (totalHoldings d) ''USDC''"
    by (rule eq, simp add: stables_def)+
  from p' have "fetchOUSDDetails rnd (drop_foreign fetched)
      = Inr \<lparr>totalHoldings = th', ousdStrategies = drop_foreign ?s,
             totalStables = foldl (\<lambda>acc key. js_add rnd acc (or_zero (map_of th' key))) (Fin 0) stables,
             holdingsSummary = foldl (\<lambda>acc t. AList.update t (map_of th' t) acc) [] stables\<rparr>"
    by (simp add: fetchOUSDDetails_def Let_def processStrategies_def drop_foreign_delete o)
  moreover from assms
  have "totalStables d = foldl (\<lambda>acc key. js_add rnd acc (or_zero (map_of (totalHoldings d) key))) (Fin 0) stables"
    and "holdingsSummary d = foldl (\<lambda>acc t. AList.update t (map_of (totalHoldings d) t) acc) [] stables"
    by (auto simp: fetchOUSDDetails_def Let_def split: sum.splits)
  ultimately show ?thesis by (simp add: stables_def e)
qed


lemma rounding_no_NaN: "rounding rnd \<Longrightarrow> rd rnd x \<noteq> NaN"
proof
  assume r: "rounding rnd" and n: "rd rnd x = NaN"
  from rounding_mono [OF r, of x x] show False by (simp add: n)
qed

lemma add_amount_fin:
  assumes "rounding rnd" and "cur \<noteq> NaN" and "is_fin v"
  shows "add_amount rnd cur v = js_add rnd cur v \<and> js_add rnd cur v \<noteq> NaN"
proof -
  from assms(3) obtain b where v: "v = Fin b" by (cases v) (simp_all add: is_fin_def)
  from assms(2) have "(if js_truthy cur then cur else Fin 0) = cur"
    by (auto simp: js_truthy_def)
  moreover have "js_add rnd cur (Fin b) \<noteq> NaN"
    using assms(2) rounding_no_NaN [OF assms(1)] by (cases cur) auto
  ultimately show ?thesis by (simp add: add_amount_def v)
qed

lemma foldl_add_amount_fin:
  "rounding rnd \<Longrightarrow> cur \<noteq> NaN \<Longrightarrow> list_all is_fin vs \<Longrightarrow>
   foldl (add_amount rnd) cur vs = foldl (js_add rnd) cur vs \<and> foldl (js_add rnd) cur vs \<noteq> NaN"
  by (induction vs arbitrary: cur) (simp_all add: add_amount_fin)

lemma amounts_of_all:
  "all_amounts P s \<Longrightarrow> list_all P (amounts_of s t)"
  unfolding all_amounts_def amounts_of_def
  by (induction s) (auto simp: list_all_iff split: option.splits)

lemma running_total_fin:
  assumes "rounding rnd" and "finite_snapshot s"
  shows "or_zero (running_total rnd s t) = spec_perAssetTotal rnd s t"
proof -
  from assms(2) have "list_all is_fin (amounts_of s t)"
    unfolding finite_snapshot_def by (rule amounts_of_all)
  from foldl_add_amount_fin [OF assms(1) _ this, of "Fin 0"]
  have e: "foldl (add_amount rnd) (Fin 0) (amounts_of s t) = js_sum rnd (amounts_of s t)"
    and n: "js_sum rnd (amounts_of s t) \<noteq> NaN"
    by (simp_all add: js_sum_def)
  show ?thesis
  proof (cases "amounts_of s t = []")
    case True
    then show ?thesis
      by (simp add: running_total_def spec_perAssetTotal_def js_sum_def or_zero_def)
  next
    case False
    with e n show ?thesis
      by (auto simp: running_total_def spec_perAssetTotal_def or_zero_def js_truthy_def)
  qed
qed


section \<open>Quote normalizers: absent fields\<close>

text \<open>
  Claim C8. The claim: no normalizer fails, an absent raw rate field becomes the rate
  \<open>0\<close>, and unrecognised symbols are dropped. At a Compound entry of a recognised symbol
  whose \<^verbatim>\<open>comp_supply_apy\<close> is absent \<^verbatim>\<open>processCompound\<close> throws, and at an Aave
  reserve with neither rate field \<^verbatim>\<open>processAAVE\<close> yields the base rate \<open>NaN\<close> beside
  the reward rate \<open>0\<close>: the reward is guarded by \<^verbatim>\<open>|| 0\<close>, the base is not.
\<close>

theorem normalizers_absent_field:
  "processCompound rnd parse
     \<lparr>cToken = Some [\<lparr>c_symbol = Str ''cDAI'',
                      supply_rate = Some \<lparr>rate_value = Num (Fin (2 / 100))\<rparr>,
                      comp_supply_apy = None\<rparr>]\<rparr> = Inl TypeError
   \<and> processAAVE parse
     \<lparr>reserves = Some [\<lparr>symbol = Str ''ADAI'', liquidityRate = Undefined,
                        aIncentivesAPY = Undefined\<rparr>]\<rparr>
       = Inr [(''ADAI'', \<lparr>base = NaN, reward = Fin 0\<rparr>)]"
  by (simp add: processCompound_def compound_step_def compoundTokens_def
      processAAVE_def aave_step_def aaveTokens_def)

section \<open>Allocation model: editing a cell\<close>

text \<open>
  Claim C7, as amended. \<^verbatim>\<open>onChangeAllocation\<close> stores the given number unchanged,
  whatever its value, and never fails: after the call the addressed cell holds the number
  and every other cell reads as before, for identifiers inside and outside the catalog
  alike (an unknown asset or strategy gets a new cell).
\<close>

theorem onChangeAllocation_cell:
  "cell (onChangeAllocation tok strat p prev) t s =
     (if t = tok \<and> s = strat then Some p else cell prev t s)"
  by (auto simp: cell_def onChangeAllocation_def update_conv' split: option.splits)

text \<open>
  The claim as stated (failure exactly for identifiers outside the catalog) is false: with
  an asset and a strategy that the catalog does not have, the call returns a state that
  differs from the old one and holds the value, here \<open>5\<close>, outside \<open>[0,1]\<close>.
\<close>

theorem onChangeAllocation_unknown_counterexample:
  "''XYZ'' \<notin> set seed_tokens \<and> ''nostrat'' \<notin> set strategy_ids
   \<and> cell initial_allocations ''XYZ'' ''nostrat'' = None
   \<and> cell (onChangeAllocation ''XYZ'' ''nostrat'' (Fin 5) initial_allocations) ''XYZ'' ''nostrat''
       = Some (Fin 5)"
  by (simp add: cell_def onChangeAllocation_def initial_allocations_def seed_tokens_def
      strategy_ids_def)

theorem onChangeAllocation_cell_witness:
  "cell (onChangeAllocation ''DAI'' ''morpho_strat'' (Fin 2) initial_allocations) ''DAI'' ''morpho_strat''
     = Some (Fin 2)
   \<and> cell (onChangeAllocation ''DAI'' ''morpho_strat'' (Fin 2) initial_allocations) ''USDC'' ''morpho_strat''
     = Some (Fin 0)"
  using onChangeAllocation_cell [of "''DAI''" "''morpho_strat''" "Fin 2" initial_allocations
      "''DAI''" "''morpho_strat''"]
    onChangeAllocation_cell [of "''DAI''" "''morpho_strat''" "Fin 2" initial_allocations
      "''USDC''" "''morpho_strat''"]
  by (simp add: cell_def initial_allocations_def seed_tokens_def strategy_ids_def)

section \<open>Aggregation: the grand total\<close>

text \<open>
  Claim C6. The assets are the fixed enumeration of the three stablecoins \<open>DAI\<close>, \<open>USDT\<close>,
  \<open>USDC\<close>. For every snapshot on which \<^verbatim>\<open>fetchOUSDDetails\<close> returns: the total that the
  code keeps for a token is the running total of that token's amounts alone, whatever
  other tokens the holdings mention between them; the grand total \<^verbatim>\<open>totalStables\<close> is the
  sum, from left to right over the three stablecoins, of these totals (nothing kept counts
  as \<open>0\<close>); tokens outside the three change neither the summary nor the grand total, which
  are those of the snapshot without such tokens. When the amounts are finite, the total of
  a token is the sum over the strategies of the amounts they hold of it, as the
  specification words it, and the grand total is the sum of these per-asset totals over
  the assets. The sums are sums of doubles in the order of the code.
\<close>

theorem grand_total_is_sum_over_stables:
  assumes "fetchOUSDDetails rnd fetched = Inr d"
  shows "(\<forall>t. map_of (totalHoldings d) t = running_total rnd (ousdStrategies d) t)
       \<and> totalStables d = js_sum rnd (map (\<lambda>t. or_zero (map_of (totalHoldings d) t)) stables)
       \<and> (\<exists>d'. fetchOUSDDetails rnd (drop_foreign fetched) = Inr d'
             \<and> holdingsSummary d' = holdingsSummary d \<and> totalStables d' = totalStables d)
       \<and> (rounding rnd \<and> finite_snapshot fetched \<longrightarrow>
            (\<forall>t. or_zero (map_of (totalHoldings d) t) = spec_perAssetTotal rnd (ousdStrategies d) t)
          \<and> totalStables d = spec_grandTotal rnd (ousdStrategies d))"
proof -
  note D = fetchOUSDDetails_InrD [OF assms]
  have a: "map_of (totalHoldings d) t = running_total rnd (ousdStrategies d) t" for t
    by (rule totalHoldings_running [OF assms])
  from D have g: "totalStables d = js_sum rnd (map (\<lambda>t. or_zero (map_of (totalHoldings d) t)) stables)"
    by blast
  have f: "\<exists>d'. fetchOUSDDetails rnd (drop_foreign fetched) = Inr d'
             \<and> holdingsSummary d' = holdingsSummary d \<and> totalStables d' = totalStables d"
    using fetch_drop_foreign [OF assms] by blast
  have n: "(\<forall>t. or_zero (map_of (totalHoldings d) t) = spec_perAssetTotal rnd (ousdStrategies d) t)
          \<and> totalStables d = spec_grandTotal rnd (ousdStrategies d)"
    if r: "rounding rnd" and fin: "finite_snapshot fetched"
  proof -
    from D have o: "ousdStrategies d = AList.delete ''vault_holding'' fetched" by blast
    from fin have fs: "finite_snapshot (ousdStrategies d)"
      unfolding finite_snapshot_def o by (rule all_amounts_delete)
    have 1: "or_zero (map_of (totalHoldings d) t) = spec_perAssetTotal rnd (ousdStrategies d) t" for t
      unfolding a by (rule running_total_fin [OF r fs])
    with g show ?thesis by (simp add: spec_grandTotal_def)
  qed
  from a g f n show ?thesis by blast
qed

theorem grand_total_is_sum_over_stables_witness:
  "\<exists>d d'. fetchOUSDDetails grid ex_fetched = Inr d
     \<and> rounding grid \<and> finite_snapshot ex_fetched
     \<and> map_of (totalHoldings d) ''LUSD'' = Some (Fin 5)
     \<and> map_of (totalHoldings d) ''DAI'' = Some (Fin 8)
     \<and> spec_perAssetTotal grid (ousdStrategies d) ''DAI'' = Fin 8
     \<and> totalStables d = Fin 43 \<and> spec_grandTotal grid (ousdStrategies d) = Fin 43
     \<and> fetchOUSDDetails grid (drop_foreign ex_fetched) = Inr d' \<and> totalStables d' = Fin 43"
proof -
  have fin: "finite_snapshot ex_fetched" by code_simp
  have "case fetchOUSDDetails grid ex_fetched of
          Inl e \<Rightarrow> False
        | Inr d \<Rightarrow> totalStables d = Fin 43
            \<and> map_of (totalHoldings d) ''LUSD'' = Some (Fin 5)
            \<and> map_of (totalHoldings d) ''DAI'' = Some (Fin 8)"
    by code_simp
  then obtain d where h: "fetchOUSDDetails grid ex_fetched = Inr d" and v: "totalStables d = Fin 43"
    and l: "map_of (totalHoldings d) ''LUSD'' = Some (Fin 5)"
    and u: "map_of (totalHoldings d) ''DAI'' = Some (Fin 8)"
    by (auto split: sum.splits)
  note t = grand_total_is_sum_over_stables [OF h]
  from t rounding_grid fin have g: "totalStables d = spec_grandTotal grid (ousdStrategies d)"
    and p: "or_zero (map_of (totalHoldings d) ''DAI'') = spec_perAssetTotal grid (ousdStrategies d) ''DAI''"
    by blast+
  from t obtain d' where h': "fetchOUSDDetails grid (drop_foreign ex_fetched) = Inr d'"
    and v': "totalStables d' = totalStables d"
    by blast
  from p u have "spec_perAssetTotal grid (ousdStrategies d) ''DAI'' = Fin 8"
    by (simp add: or_zero_def js_truthy_def)
  with h rounding_grid fin l u v g h' v' show ?thesis by auto
qed

section \<open>Aggregation: the baseline of an asset nobody holds\<close>

text \<open>
  Claim C3, as amended. When every strategy of the snapshot holds \<open>0\<close> of an asset (or
  does not list it), the per-asset total counts as \<open>0\<close> and the baseline allocation that
  the seeding computes for that asset is \<open>NaN\<close> (the quotient \<open>0/0\<close>) for each of the seven
  strategies, whenever the seeding gets as far as \<^verbatim>\<open>setAllocations\<close>; the division throws
  nothing, and on a complete snapshot the seeding does get there (\<open>seed_returns\<close>).
\<close>

theorem baseline_of_unheld_asset_is_NaN:
  assumes "seed rnd fetched = Inr (d, al)"
    and "holds_none (ousdStrategies d) t"
    and "t \<in> set seed_tokens" and "sid \<in> set strategy_ids"
  shows "or_zero (map_of (totalHoldings d) t) = Fin 0 \<and> cell al t sid = Some NaN"
proof -
  from seed_InrD [OF assms(1)] obtain hs where fd: "fetchOUSDDetails rnd fetched = Inr d"
    and hs: "all_holdings (ousdStrategies d) strategy_ids = Inr hs"
    and al: "al = baseline rnd hs (totalHoldings d)"
    by blast
  from fetchOUSDDetails_InrD [OF fd]
  have "processStrategies_from rnd [] (ousdStrategies d) = Inr (totalHoldings d)" by blast
  from processStrategies_from_none [OF _ assms(2) this]
  have th: "map_of (totalHoldings d) t = None \<or> map_of (totalHoldings d) t = Some (Fin 0)"
    by simp
  from baseline_cell [OF hs assms(4,3)] obtain h where h: "holdings_of (ousdStrategies d) sid = Inr h"
    and c: "cell al t sid = Some (js_div rnd (to_num (map_of h t)) (to_num (map_of (totalHoldings d) t)))"
    unfolding al by blast
  have "js_div rnd (to_num (map_of h t)) (to_num (map_of (totalHoldings d) t)) = NaN"
    by (intro div_falsy_zero to_num_falsy holdings_of_none [OF assms(2) h] th)
  moreover from th have "or_zero (map_of (totalHoldings d) t) = Fin 0"
    by (auto simp: or_zero_def js_truthy_def)
  ultimately show ?thesis using c by simp
qed

theorem baseline_of_unheld_asset_is_NaN_witness:
  "\<exists>d al. seed grid (uniform_snapshot no_dai_amounts) = Inr (d, al)
     \<and> holds_none (ousdStrategies d) ''DAI''
     \<and> cell al ''DAI'' ''aavestrat_holding'' = Some NaN
     \<and> cell al ''USDC'' ''aavestrat_holding'' = Some (Fin (73 / 512))"
proof -
  have "case seed grid (uniform_snapshot no_dai_amounts) of
          Inl e \<Rightarrow> False
        | Inr da \<Rightarrow> holds_none (ousdStrategies (fst da)) ''DAI''
            \<and> cell (snd da) ''USDC'' ''aavestrat_holding'' = Some (Fin (73 / 512))"
    by code_simp
  then obtain d al where h: "seed grid (uniform_snapshot no_dai_amounts) = Inr (d, al)"
    and z: "holds_none (ousdStrategies d) ''DAI''"
    and u: "cell al ''USDC'' ''aavestrat_holding'' = Some (Fin (73 / 512))"
    by (auto split: sum.splits)
  have t: "''DAI'' \<in> set seed_tokens" by (simp add: seed_tokens_def)
  have s: "''aavestrat_holding'' \<in> set strategy_ids" by (simp add: strategy_ids_def)
  from baseline_of_unheld_asset_is_NaN [OF h z t s] h z u show ?thesis by blast
qed

text \<open>
  The claim as stated (the baseline of such an asset is \<open>0\<close>) is false: with every
  strategy holding \<open>0\<close> DAI, \<open>2\<close> USDC and \<open>2\<close> USDT, the total of DAI is \<open>0\<close> and the
  baseline cell of DAI for \<^verbatim>\<open>morpho_strat\<close> is \<open>NaN\<close>, whatever the rounding is.
\<close>

theorem baseline_zero_total_counterexample:
  "\<forall>rnd. \<exists>al data.
       simulate rnd (uniform_snapshot no_dai_amounts) ex_quotes initial_allocations (Fin 2)
         = Inr (al, Inr data)
     \<and> map_of (totalHoldings (data_details data)) ''DAI'' = Some (Fin 0)
     \<and> cell al ''DAI'' ''morpho_strat'' = Some NaN
     \<and> cell al ''DAI'' ''morpho_strat'' \<noteq> Some (Fin 0)"
proof
  fix rnd
  have "case simulate rnd (uniform_snapshot no_dai_amounts) ex_quotes initial_allocations (Fin 2) of
          Inl e \<Rightarrow> False
        | Inr res \<Rightarrow> (case snd res of Inl e \<Rightarrow> False | Inr data \<Rightarrow>
            map_of (totalHoldings (data_details data)) ''DAI'' = Some (Fin 0)
            \<and> cell (fst res) ''DAI'' ''morpho_strat'' = Some NaN)"
    by code_simp
  then show "\<exists>al data.
       simulate rnd (uniform_snapshot no_dai_amounts) ex_quotes initial_allocations (Fin 2)
         = Inr (al, Inr data)
     \<and> map_of (totalHoldings (data_details data)) ''DAI'' = Some (Fin 0)
     \<and> cell al ''DAI'' ''morpho_strat'' = Some NaN
     \<and> cell al ''DAI'' ''morpho_strat'' \<noteq> Some (Fin 0)"
    by (auto split: sum.splits)
qed

section \<open>Projection: a grand total of zero\<close>

text \<open>
  Claim C4, as amended. When the grand total is \<open>0\<close>, the amounts of the snapshot are
  doubles that are not negative and the catalog's tokens are stablecoins (as the catalog
  \<open>strategies\<close> has them), every emitted row's allocation is \<open>NaN\<close>, not \<open>0\<close>, and the
  blended APY is \<open>0\<close>, because a \<open>NaN\<close> weighted rate counts as \<open>0\<close>. No division throws:
  on complete inputs the run returns (\<open>project_returns\<close>), whatever the numbers are.
\<close>

theorem zero_grand_total_projection:
  assumes "rounding rnd" and "nonneg_snapshot rnd fetched"
    and "project rnd c fetched q a b = Inr (al, Inr data)"
    and "totalStables (data_details data) = Fin 0" and "stable_catalog c"
  shows "(\<forall>r \<in> set (emitted (data_outcome data)). row_allocation r = NaN)
       \<and> data_calculatedAPY data = Fin 0"
proof -
  let ?d = "data_details data"
  let ?rows = "data_outcome data"
  from project_Inr [OF assms(3)] have fd: "fetchOUSDDetails rnd fetched = Inr ?d"
    and o: "outcome rnd ?d q a b c = Inr ?rows"
    and apy: "data_calculatedAPY data = calculatedAPY rnd ?rows"
    by blast+
  have nan: "row_allocation r = NaN \<and> row_weighted r = NaN" if "r \<in> set (emitted ?rows)" for r
  proof -
    from that have "Some r \<in> set ?rows" by (simp add: emitted_set)
    then obtain i where i: "i < length ?rows" and ri: "?rows ! i = Some r"
      by (auto simp: in_set_conv_nth)
    from i outcome_length [OF o] have ic: "i < length c" by simp
    with outcome_nth [OF o] ri have "outcome_row rnd ?d q a b (c ! i) = Inr (Some r)" by simp
    then obtain x tot y where at: "alloc_total rnd a (totalHoldings ?d) (totalStables ?d)
          (holdingsSummary ?d) (strategyId (c ! i)) (token (c ! i)) = Inr (x, tot)"
      and ra: "row_allocation r = x" and rw: "row_weighted r = js_mul rnd x y"
      by (auto dest!: outcome_row_SomeD)
    from assms(5) ic have ne: "scope_tokens (token (c ! i)) \<noteq> []"
      and st: "\<forall>t \<in> set (scope_tokens (token (c ! i))). t \<in> set stables"
      by (auto simp: stable_catalog_def list_all_iff)
    have "x = NaN"
      using at unfolding assms(4)
      by (rule alloc_total_zero_grand [OF _ ne])
         (use st zero_grand_total_stable [OF assms(1,2) fd assms(4)] in blast)
    with ra rw show ?thesis by auto
  qed
  then have "map (\<lambda>r. if row_weighted r = NaN then Fin 0 else row_weighted r) (emitted ?rows)
      = map (\<lambda>r. Fin 0) (emitted ?rows)"
    by (intro map_cong) auto
  then have "calculatedAPY rnd ?rows = js_sum rnd (map (\<lambda>r. Fin 0) (emitted ?rows))"
    by (simp only: calculatedAPY_emitted)
  also have "\<dots> = Fin 0" by (rule js_sum_zeros)
  finally show ?thesis using nan apy by simp
qed

theorem zero_grand_total_projection_witness:
  "\<exists>al data r. project grid strategies (uniform_snapshot zero_amounts) ex_quotes ex_allocations (Fin 2) = Inr (al, Inr data)
     \<and> rounding grid \<and> nonneg_snapshot grid (uniform_snapshot zero_amounts) \<and> stable_catalog strategies
     \<and> totalStables (data_details data) = Fin 0
     \<and> data_outcome data ! 6 = Some r \<and> row_allocation r = NaN
     \<and> data_calculatedAPY data = Fin 0"
proof -
  have nn: "nonneg_snapshot grid (uniform_snapshot zero_amounts)" by code_simp
  have sc: "stable_catalog strategies" by code_simp
  have "case project grid strategies (uniform_snapshot zero_amounts) ex_quotes ex_allocations (Fin 2) of
          Inl e \<Rightarrow> False
        | Inr res \<Rightarrow> (case snd res of Inl e \<Rightarrow> False | Inr data \<Rightarrow>
            totalStables (data_details data) = Fin 0
            \<and> 6 < length (data_outcome data) \<and> data_outcome data ! 6 \<noteq> None)"
    by code_simp
  then obtain al data r where h: "project grid strategies (uniform_snapshot zero_amounts) ex_quotes ex_allocations (Fin 2) = Inr (al, Inr data)"
    and z: "totalStables (data_details data) = Fin 0"
    and l: "6 < length (data_outcome data)" and r: "data_outcome data ! 6 = Some r"
    by (auto split: sum.splits)
  from l r have "Some r \<in> set (data_outcome data)" by (metis nth_mem)
  then have "r \<in> set (emitted (data_outcome data))" by (simp add: emitted_set)
  with zero_grand_total_projection [OF rounding_grid nn h z sc]
  have "row_allocation r = NaN \<and> data_calculatedAPY data = Fin 0" by blast
  with h rounding_grid nn sc z r show ?thesis by blast
qed

text \<open>
  The claim as stated (every allocation fraction resolves to \<open>0\<close>) is false: with all
  holdings \<open>0\<close> and all allocation cells \<open>0\<close>, the first row's allocation is
  \<open>0 * 0 / 0 = NaN\<close>, whatever the rounding is.
\<close>

theorem zero_grand_total_allocation_counterexample:
  "\<forall>rnd. \<exists>al data r.
       simulate rnd (uniform_snapshot zero_amounts) ex_quotes initial_allocations (Fin 2)
         = Inr (al, Inr data)
     \<and> totalStables (data_details data) = Fin 0
     \<and> data_outcome data ! 0 = Some r \<and> row_allocation r = NaN \<and> row_allocation r \<noteq> Fin 0"
proof
  fix rnd
  have "case simulate rnd (uniform_snapshot zero_amounts) ex_quotes initial_allocations (Fin 2) of
          Inl e \<Rightarrow> False
        | Inr res \<Rightarrow> (case snd res of Inl e \<Rightarrow> False | Inr data \<Rightarrow>
            totalStables (data_details data) = Fin 0
            \<and> (case data_outcome data ! 0 of
                 None \<Rightarrow> False
               | Some r \<Rightarrow> row_allocation r = NaN))"
    by code_simp
  then show "\<exists>al data r.
       simulate rnd (uniform_snapshot zero_amounts) ex_quotes initial_allocations (Fin 2)
         = Inr (al, Inr data)
     \<and> totalStables (data_details data) = Fin 0
     \<and> data_outcome data ! 0 = Some r \<and> row_allocation r = NaN \<and> row_allocation r \<noteq> Fin 0"
    by (auto split: sum.splits option.splits)
qed

section \<open>Projection: rows follow the catalog\<close>

text \<open>
  Claim C5. The projection is a function of the catalog, the fetched snapshot, the quotes,
  the allocations and the boost, and reads nothing else, so two runs on the same inputs
  give the same result. Its rows are positional: the result has one entry per catalog
  entry, the entry at position \<open>i\<close> is the row (or \<^verbatim>\<open>null\<close>) computed from catalog entry
  \<open>i\<close> alone, and a row carries the token scope of its catalog entry.
\<close>

theorem rows_follow_catalog_order:
  assumes "project rnd c f q a b = Inr (al, Inr data)"
  shows "length (data_outcome data) = length c
       \<and> (\<forall>i < length c.
            outcome_row rnd (data_details data) q a b (c ! i) = Inr (data_outcome data ! i)
          \<and> (\<forall>r. data_outcome data ! i = Some r \<longrightarrow> row_token r = token (c ! i)))"
proof -
  from project_Inr [OF assms]
  have o: "outcome rnd (data_details data) q a b c = Inr (data_outcome data)" by blast
  have "row_token r = token (c ! i)" if "i < length c" "data_outcome data ! i = Some r" for i r
    using outcome_nth [OF o that(1)] that(2) by (auto dest!: outcome_row_SomeD)
  with outcome_length [OF o] outcome_nth [OF o] show ?thesis by auto
qed

theorem rows_follow_catalog_order_witness:
  "\<exists>al data r0 r6. project grid strategies (uniform_snapshot ex_amounts) ex_quotes ex_allocations (Fin 2) = Inr (al, Inr data)
     \<and> length (data_outcome data) = 15
     \<and> data_outcome data ! 0 = Some r0 \<and> row_token r0 = Single ''DAI''
     \<and> data_outcome data ! 6 = Some r6 \<and> row_token r6 = Basket [''DAI'', ''USDC'', ''USDT'']
     \<and> data_outcome data ! 2 = None"
proof -
  have "case project grid strategies (uniform_snapshot ex_amounts) ex_quotes ex_allocations (Fin 2) of
          Inl e \<Rightarrow> False
        | Inr res \<Rightarrow> (case snd res of Inl e \<Rightarrow> False | Inr data \<Rightarrow>
            data_outcome data ! 0 \<noteq> None \<and> data_outcome data ! 6 \<noteq> None
            \<and> data_outcome data ! 2 = None)"
    by code_simp
  then obtain al data r0 r6 where h: "project grid strategies (uniform_snapshot ex_amounts) ex_quotes ex_allocations (Fin 2) = Inr (al, Inr data)"
    and r0: "data_outcome data ! 0 = Some r0" and r6: "data_outcome data ! 6 = Some r6"
    and r2: "data_outcome data ! 2 = None"
    by (auto split: sum.splits)
  have len: "length strategies = 15" by (simp add: strategies_def)
  from rows_follow_catalog_order [OF h] r0 r6 len
  have "length (data_outcome data) = 15" and "row_token r0 = token (strategies ! 0)"
    and "row_token r6 = token (strategies ! 6)"
    by auto
  then have "length (data_outcome data) = 15 \<and> row_token r0 = Single ''DAI''
      \<and> row_token r6 = Basket [''DAI'', ''USDC'', ''USDT'']"
    by (simp add: strategies_def three_pool_def)
  with h r0 r6 r2 show ?thesis by blast
qed

section \<open>Projection: a missing quote omits the row\<close>

text \<open>
  Claim C2. When no quote exists under the quote key of catalog entry \<open>i\<close>, the result
  holds no row at position \<open>i\<close> (the entry is \<^verbatim>\<open>null\<close>, not a row of zero rates), and the
  entry contributes nothing to the blended APY: the projection over the catalog without
  that entry returns the remaining entries unchanged and the same blended APY.
\<close>

theorem missing_quote_row_omitted:
  assumes "project rnd c f q a b = Inr (al, Inr data)" and "i < length c"
    and "map_of q (apy (c ! i)) = None"
  shows "length (data_outcome data) = length c \<and> data_outcome data ! i = None
       \<and> (\<exists>data'. project rnd (take i c @ drop (Suc i) c) f q a b = Inr (al, Inr data')
             \<and> data_outcome data' = take i (data_outcome data) @ drop (Suc i) (data_outcome data)
             \<and> data_calculatedAPY data' = data_calculatedAPY data)"
proof -
  let ?rows = "data_outcome data"
  let ?d = "data_details data"
  from project_Inr [OF assms(1)] have sd: "seed rnd f = Inr (?d, al)"
    and o: "outcome rnd ?d q a b c = Inr ?rows"
    and apy: "data_calculatedAPY data = calculatedAPY rnd ?rows"
    by blast+
  have len: "length ?rows = length c" by (rule outcome_length [OF o])
  have "outcome_row rnd ?d q a b (c ! i) = Inr (?rows ! i)" by (rule outcome_nth [OF o assms(2)])
  with outcome_row_no_quote [OF assms(3)] have none: "?rows ! i = None" by simp
  have c: "c = take i c @ c ! i # drop (Suc i) c"
    using assms(2) by (simp add: id_take_nth_drop)
  from o obtain r1 r2 where r1: "outcome rnd ?d q a b (take i c) = Inr r1"
    and r2: "outcome rnd ?d q a b (drop (Suc i) c) = Inr r2"
    and rows: "?rows = r1 @ None # r2"
    by (subst (asm) c) (auto simp: outcome_append outcome_row_no_quote [OF assms(3)] split: sum.splits)
  have l1: "length r1 = i" using outcome_length [OF r1] assms(2) by simp
  have o': "outcome rnd ?d q a b (take i c @ drop (Suc i) c) = Inr (r1 @ r2)"
    by (simp add: outcome_append r1 r2)
  have td: "take i ?rows @ drop (Suc i) ?rows = r1 @ r2"
    using l1 by (simp add: rows)
  have "calculatedAPY rnd (r1 @ r2) = calculatedAPY rnd ?rows"
    by (simp add: rows calculatedAPY_drop_None)
  then have "project rnd (take i c @ drop (Suc i) c) f q a b
      = Inr (al, Inr \<lparr>data_outcome = r1 @ r2, data_calculatedAPY = data_calculatedAPY data,
                      data_details = ?d\<rparr>)"
    by (simp add: project_def sd o' apy)
  with len none td show ?thesis by auto
qed

theorem missing_quote_row_omitted_witness:
  "\<exists>al data data'. project grid strategies (uniform_snapshot ex_amounts) ex_quotes ex_allocations (Fin 2) = Inr (al, Inr data)
     \<and> map_of ex_quotes (apy (strategies ! 2)) = None
     \<and> data_outcome data ! 2 = None
     \<and> project grid (take 2 strategies @ drop 3 strategies) (uniform_snapshot ex_amounts) ex_quotes
           ex_allocations (Fin 2) = Inr (al, Inr data')
     \<and> data_calculatedAPY data' = data_calculatedAPY data
     \<and> data_calculatedAPY data = Fin (3 / 128)"
proof -
  have "case project grid strategies (uniform_snapshot ex_amounts) ex_quotes ex_allocations (Fin 2) of
          Inl e \<Rightarrow> False
        | Inr res \<Rightarrow> (case snd res of Inl e \<Rightarrow> False | Inr data \<Rightarrow>
            data_calculatedAPY data = Fin (3 / 128))"
    by code_simp
  then obtain al data where h: "project grid strategies (uniform_snapshot ex_amounts) ex_quotes ex_allocations (Fin 2) = Inr (al, Inr data)"
    and v: "data_calculatedAPY data = Fin (3 / 128)"
    by (auto split: sum.splits)
  have i: "2 < length strategies" by (simp add: strategies_def)
  have q: "map_of ex_quotes (apy (strategies ! 2)) = None"
    by (simp add: strategies_def ex_quotes_def)
  from missing_quote_row_omitted [OF h i q] h q v show ?thesis
    by (auto simp: numeral_3_eq_3 eval_nat_numeral)
qed

section \<open>Projection: zero boost\<close>

text \<open>
  Claim C9. With the boost multiplier \<open>0\<close> the blended APY of every run that returns is
  \<open>0\<close>, whatever the allocations, the holdings and the rates are (also when they are
  infinite or \<open>NaN\<close>: the weighted rate is then \<open>0\<close> or \<open>NaN\<close>, and both count as \<open>0\<close>).
\<close>

theorem zero_boost_zero_apy:
  "project rnd c f q a (Fin 0) = Inr (al, Inr data) \<Longrightarrow> data_calculatedAPY data = Fin 0"
proof -
  assume "project rnd c f q a (Fin 0) = Inr (al, Inr data)"
  from project_Inr [OF this]
  have o: "outcome rnd (data_details data) q a (Fin 0) c = Inr (data_outcome data)"
    and apy: "data_calculatedAPY data = calculatedAPY rnd (data_outcome data)"
    by blast+
  from outcome_boost0 [OF o] show ?thesis
    by (simp add: apy calculatedAPY_def foldl_all_zero)
qed

theorem zero_boost_zero_apy_witness:
  "\<exists>al data data2. project grid strategies (uniform_snapshot ex_amounts) ex_quotes ex_allocations (Fin 0) = Inr (al, Inr data)
     \<and> data_calculatedAPY data = Fin 0
     \<and> project grid strategies (uniform_snapshot ex_amounts) ex_quotes ex_allocations (Fin 2) = Inr (al, Inr data2)
     \<and> data_calculatedAPY data2 = Fin (3 / 128)"
proof -
  have "case project grid strategies (uniform_snapshot ex_amounts) ex_quotes ex_allocations (Fin 2) of
          Inl e \<Rightarrow> False
        | Inr res \<Rightarrow> (case snd res of Inl e \<Rightarrow> False | Inr data \<Rightarrow>
            data_calculatedAPY data = Fin (3 / 128)
            \<and> (case project grid strategies (uniform_snapshot ex_amounts) ex_quotes ex_allocations (Fin 0) of
                 Inl e \<Rightarrow> False
               | Inr res0 \<Rightarrow> fst res0 = fst res \<and> returns (snd res0)))"
    by code_simp
  then obtain al data data2 where h: "project grid strategies (uniform_snapshot ex_amounts) ex_quotes ex_allocations (Fin 0) = Inr (al, Inr data)"
    and h2: "project grid strategies (uniform_snapshot ex_amounts) ex_quotes ex_allocations (Fin 2) = Inr (al, Inr data2)"
    and v: "data_calculatedAPY data2 = Fin (3 / 128)"
    by (auto simp: returns_def split: sum.splits)
  from zero_boost_zero_apy [OF h] h h2 v show ?thesis by blast
qed

section \<open>Projection: the total field of a row\<close>

text \<open>
  Claim C10. In a row of a single-asset entry the field \<^verbatim>\<open>total\<close> is \<open>undefined\<close> (the
  code reads the property \<^verbatim>\<open>total\<close> of the number \<^verbatim>\<open>holdingsSummary[token]\<close>); in a row
  of a basket entry it is the sum, from \<open>0\<close>, of \<^verbatim>\<open>holdingsSummary[t]\<close> over the basket's
  tokens \<open>t\<close>.
\<close>

theorem row_total_by_scope:
  assumes "project rnd c f q a b = Inr (al, Inr data)" and "i < length c"
    and "data_outcome data ! i = Some r"
  shows "case token (c ! i) of
           Single t \<Rightarrow> row_total r = None
         | Basket toks \<Rightarrow>
             row_total r =
               Some (js_sum rnd (map (\<lambda>t. to_num (summary_get (holdingsSummary (data_details data)) t)) toks))"
proof -
  from project_Inr [OF assms(1)]
  have o: "outcome rnd (data_details data) q a b c = Inr (data_outcome data)" by blast
  from outcome_nth [OF o assms(2)] assms(3)
  have "outcome_row rnd (data_details data) q a b (c ! i) = Inr (Some r)" by simp
  then show ?thesis
    by (auto dest!: outcome_row_SomeD alloc_total_InrD split: scope.splits)
qed

theorem row_total_by_scope_witness:
  "\<exists>al data r0 r6. project grid strategies (uniform_snapshot ex_amounts) ex_quotes ex_allocations (Fin 2) = Inr (al, Inr data)
     \<and> data_outcome data ! 0 = Some r0 \<and> row_total r0 = None
     \<and> data_outcome data ! 6 = Some r6 \<and> row_total r6 = Some (Fin 42)"
proof -
  have "case project grid strategies (uniform_snapshot ex_amounts) ex_quotes ex_allocations (Fin 2) of
          Inl e \<Rightarrow> False
        | Inr res \<Rightarrow> (case snd res of Inl e \<Rightarrow> False | Inr data \<Rightarrow>
            data_outcome data ! 0 \<noteq> None
            \<and> (case data_outcome data ! 6 of
                 None \<Rightarrow> False
               | Some r \<Rightarrow> row_total r = Some (Fin 42)))"
    by code_simp
  then obtain al data r0 r6 where h: "project grid strategies (uniform_snapshot ex_amounts) ex_quotes ex_allocations (Fin 2) = Inr (al, Inr data)"
    and r0: "data_outcome data ! 0 = Some r0" and r6: "data_outcome data ! 6 = Some r6"
    and t6: "row_total r6 = Some (Fin 42)"
    by (auto split: sum.splits option.splits)
  have i: "0 < length strategies" by (simp add: strategies_def)
  from row_total_by_scope [OF h i r0] have "row_total r0 = None"
    by (simp add: strategies_def)
  with h r0 r6 t6 show ?thesis by blast
qed

section \<open>Projection: the row formulas and the reduction\<close>



end
